theory Spec2Isabelle
  imports Main "HOL-Library.Multiset"
begin

section \<open>Values, exceptions and paths\<close>

text \<open>
  The two inference servers (\<^verbatim>\<open>realesrgan/src/inference.py\<close> and
  \<^verbatim>\<open>swinir2/src/inference.py\<close>) exchange JSON dictionaries. A JSON value is a string,
  an integer or null; a dictionary is a partial map from keys to values.
\<close>

datatype jval = JStr string | JInt int | JNull

type_synonym dict = "string \<rightharpoonup> jval"

text \<open>Python exceptions are values; \<open>str\<close> is Python's \<^verbatim>\<open>str(e)\<close>.\<close>

datatype exn =
    KeyError string
  | ValueError string
  | AttributeError string
  | ClientError string
  | RuntimeError string
  | OSError string
  | OtherError string

fun str :: "exn \<Rightarrow> string" where
  "str (KeyError k) = [CHR 0x27] @ k @ [CHR 0x27]"
| "str (ValueError m) = m"
| "str (AttributeError m) = m"
| "str (ClientError m) = m"
| "str (RuntimeError m) = m"
| "str (OSError m) = m"
| "str (OtherError m) = m"

fun is_ClientError :: "exn \<Rightarrow> bool" where
  "is_ClientError (ClientError m) = True"
| "is_ClientError e = False"

definition startswith :: "string \<Rightarrow> string \<Rightarrow> bool" where
  "startswith s p = (take (length p) s = p)"

text \<open>
  \<^verbatim>\<open>parts = s3_uri[5:].split('/', 1); bucket = parts[0];
  key = parts[1] if len(parts) > 1 else ''\<close>, for a URI that starts with \<^verbatim>\<open>s3://\<close>.
\<close>

definition parse_s3_uri :: "string \<Rightarrow> (string \<times> string) option" where
  "parse_s3_uri s3_uri =
     (if startswith s3_uri ''s3://''
      then let r = drop 5 s3_uri
           in Some (takeWhile (\<lambda>c. c \<noteq> CHR ''/'') r, drop 1 (dropWhile (\<lambda>c. c \<noteq> CHR ''/'') r))
      else None)"

definition basename :: "string \<Rightarrow> string" where
  "basename p = rev (takeWhile (\<lambda>c. c \<noteq> CHR ''/'') (rev p))"

text \<open>\<^verbatim>\<open>os.path.splitext\<close> on a name without separators: the extension starts at the
  last dot, unless only dots precede it.\<close>

definition splitext :: "string \<Rightarrow> string \<times> string" where
  "splitext b =
     (let r = rev b;
          rest = dropWhile (\<lambda>c. c \<noteq> CHR ''.'') r
      in if rest = [] then (b, [])
         else let root = rev (tl rest)
              in if list_all (\<lambda>c. c = CHR ''.'') root then (b, [])
                 else (root, CHR ''.'' # rev (takeWhile (\<lambda>c. c \<noteq> CHR ''.'') r)))"

text \<open>\<^verbatim>\<open>str.lower\<close> on ASCII text.\<close>

definition lower_char :: "char \<Rightarrow> char" where
  "lower_char c =
     (case map_of (zip ''ABCDEFGHIJKLMNOPQRSTUVWXYZ'' ''abcdefghijklmnopqrstuvwxyz'') c of
        Some d \<Rightarrow> d
      | None \<Rightarrow> c)"

definition lower :: "string \<Rightarrow> string" where
  "lower s = map lower_char s"

section \<open>The world outside the process\<close>

text \<open>
  The local file system is the set of paths of existing regular files; every call of the
  S3 client is appended to \<open>net\<close>, every call of a model to \<open>invocations\<close>.
  Creating directories and writing or compressing local files are taken to succeed;
  the calls that may raise are those of the S3 client, of OpenCV, of the models and of
  \<^verbatim>\<open>shutil.copy2\<close>, and \<^verbatim>\<open>os.path.getsize\<close> on a missing file.
\<close>

datatype s3_op =
    HeadObject string string
  | GetObject string string
  | DownloadFile string string string bool
  | UploadFile string string string bool

datatype invocation =
    Enhance string jval
  | FaceEnhance
  | SwinIR

record world =
  files :: "string set"
  net :: "s3_op list"
  invocations :: "invocation list"

text \<open>
  What the collaborators answer is a parameter of the model. Each answer may depend on the
  whole world reached so far, so a call may fail once and succeed later. \<open>Some e\<close> and
  \<open>Inl e\<close> mean that the call raises \<open>e\<close>.
\<close>

record env =
  USE_COMPRESSION :: bool
  head_object :: "world \<Rightarrow> string \<Rightarrow> string \<Rightarrow> exn + nat"
  get_object :: "world \<Rightarrow> string \<Rightarrow> string \<Rightarrow> exn option"
  gzip_read :: "world \<Rightarrow> string \<Rightarrow> string \<Rightarrow> exn option"
  download_file :: "world \<Rightarrow> string \<Rightarrow> string \<Rightarrow> string \<Rightarrow> exn option"
  upload_file :: "world \<Rightarrow> string \<Rightarrow> string \<Rightarrow> string \<Rightarrow> exn option"
  file_size :: "world \<Rightarrow> string \<Rightarrow> nat"
  imread :: "world \<Rightarrow> string \<Rightarrow> exn + (nat \<times> nat) option"
  enhance :: "world \<Rightarrow> string \<Rightarrow> jval \<Rightarrow> exn option"
  face_enhance :: "world \<Rightarrow> exn option"
  swinir_model :: "world \<Rightarrow> exn option"
  imwrite :: "world \<Rightarrow> string \<Rightarrow> exn + bool"
  copy2 :: "world \<Rightarrow> string \<Rightarrow> string \<Rightarrow> exn option"

definition MULTIPART_THRESHOLD :: nat where
  "MULTIPART_THRESHOLD = 100 * 1024 * 1024"

definition IMAGE_CACHE_DIR :: string where
  "IMAGE_CACHE_DIR = ''/tmp/image_cache''"

definition outscale :: int where
  "outscale = 4"

subsection \<open>The S3 client\<close>

definition s3_head_object :: "env \<Rightarrow> string \<Rightarrow> string \<Rightarrow> world \<Rightarrow> (exn + nat) \<times> world" where
  "s3_head_object E bucket key w =
     (head_object E w bucket key, w\<lparr>net := net w @ [HeadObject bucket key]\<rparr>)"

definition s3_get_object :: "env \<Rightarrow> string \<Rightarrow> string \<Rightarrow> world \<Rightarrow> (exn + unit) \<times> world" where
  "s3_get_object E bucket key w =
     (case get_object E w bucket key of
        Some e \<Rightarrow> (Inl e, w\<lparr>net := net w @ [GetObject bucket key]\<rparr>)
      | None \<Rightarrow> (Inr (), w\<lparr>net := net w @ [GetObject bucket key]\<rparr>))"

text \<open>\<^verbatim>\<open>download_file\<close> leaves the local file behind only when it succeeds.\<close>

definition s3_download_file ::
  "env \<Rightarrow> string \<Rightarrow> string \<Rightarrow> string \<Rightarrow> bool \<Rightarrow> world \<Rightarrow> (exn + unit) \<times> world" where
  "s3_download_file E bucket key local_path multipart w =
     (case download_file E w bucket key local_path of
        Some e \<Rightarrow> (Inl e, w\<lparr>net := net w @ [DownloadFile bucket key local_path multipart]\<rparr>)
      | None \<Rightarrow> (Inr (), w\<lparr>files := insert local_path (files w),
                              net := net w @ [DownloadFile bucket key local_path multipart]\<rparr>))"

definition s3_upload_file ::
  "env \<Rightarrow> string \<Rightarrow> string \<Rightarrow> string \<Rightarrow> bool \<Rightarrow> world \<Rightarrow> (exn + unit) \<times> world" where
  "s3_upload_file E local_path bucket key multipart w =
     (case upload_file E w local_path bucket key of
        Some e \<Rightarrow> (Inl e, w\<lparr>net := net w @ [UploadFile local_path bucket key multipart]\<rparr>)
      | None \<Rightarrow> (Inr (), w\<lparr>net := net w @ [UploadFile local_path bucket key multipart]\<rparr>))"

text \<open>\<^verbatim>\<open>os.path.getsize\<close> raises for a path that does not exist.\<close>

definition getsize :: "env \<Rightarrow> world \<Rightarrow> string \<Rightarrow> exn + nat" where
  "getsize E w p =
     (if p \<in> files w then Inr (file_size E w p)
      else Inl (OSError (''No such file or directory: '' @ p)))"

section \<open>Real-ESRGAN server: blob transfer\<close>

text \<open>
  The body of the \<^verbatim>\<open>try\<close> that probes for the compressed sibling object:
  \<^verbatim>\<open>head_object\<close>, then \<^verbatim>\<open>open(local_path, 'wb')\<close>, which creates the local file, then
  \<^verbatim>\<open>get_object\<close> and the decompressing read.
\<close>

definition download_compressed ::
  "env \<Rightarrow> string \<Rightarrow> string \<Rightarrow> string \<Rightarrow> world \<Rightarrow> (exn + unit) \<times> world" where
  "download_compressed E bucket compressed_key local_path w =
     (case s3_head_object E bucket compressed_key w of
        (Inl e, w1) \<Rightarrow> (Inl e, w1)
      | (Inr n, w1) \<Rightarrow>
          (let w2 = w1\<lparr>files := insert local_path (files w1)\<rparr>
           in case s3_get_object E bucket compressed_key w2 of
                (Inl e, w3) \<Rightarrow> (Inl e, w3)
              | (Inr u, w3) \<Rightarrow>
                  (case gzip_read E w3 bucket compressed_key of
                     Some e \<Rightarrow> (Inl e, w3)
                   | None \<Rightarrow> (Inr (), w3))))"

definition download_regular ::
  "env \<Rightarrow> string \<Rightarrow> string \<Rightarrow> string \<Rightarrow> nat \<Rightarrow> world \<Rightarrow> (exn + unit) \<times> world" where
  "download_regular E bucket key local_path fsize w =
     s3_download_file E bucket key local_path (fsize > MULTIPART_THRESHOLD) w"

text \<open>
  \<^verbatim>\<open>download_from_s3(s3_uri, local_path)\<close>. A \<^verbatim>\<open>ClientError\<close> of the first
  \<^verbatim>\<open>head_object\<close> sets the size to 0; a \<^verbatim>\<open>ClientError\<close> in the compressed attempt
  falls back to the regular download; every other exception leaves the function (the outer
  handler logs and raises again).
\<close>

definition download_from_s3 :: "env \<Rightarrow> string \<Rightarrow> string \<Rightarrow> world \<Rightarrow> (exn + string) \<times> world" where
  "download_from_s3 E s3_uri local_path w =
     (if local_path \<in> files w then (Inr local_path, w)
      else case parse_s3_uri s3_uri of
        None \<Rightarrow> (Inr s3_uri, w)
      | Some (bucket, key) \<Rightarrow>
          (let (r0, w1) = s3_head_object E bucket key w;
               sized = (case r0 of Inr n \<Rightarrow> Inr n
                        | Inl e \<Rightarrow> if is_ClientError e then Inr 0 else Inl e)
           in case sized of
                Inl e \<Rightarrow> (Inl e, w1)
              | Inr fsize \<Rightarrow>
                  (let (r, w2) =
                         (if USE_COMPRESSION E
                          then (case download_compressed E bucket (key @ ''.gz'') local_path w1 of
                                  (Inl e, w') \<Rightarrow>
                                    if is_ClientError e
                                    then download_regular E bucket key local_path fsize w'
                                    else (Inl e, w')
                                | (Inr u, w') \<Rightarrow> (Inr u, w'))
                          else download_regular E bucket key local_path fsize w1)
                   in case r of Inl e \<Rightarrow> (Inl e, w2) | Inr u \<Rightarrow> (Inr local_path, w2))))"

text \<open>
  \<^verbatim>\<open>upload_to_s3(local_path, s3_uri)\<close>. With compression the file is compressed to
  \<^verbatim>\<open>local_path + '.gz'\<close>, that file is uploaded, removed with \<^verbatim>\<open>os.remove\<close>, and the
  original is uploaded as well. An exception of \<^verbatim>\<open>upload_file\<close> leaves the function at
  once.
\<close>

definition upload_to_s3 :: "env \<Rightarrow> string \<Rightarrow> string \<Rightarrow> world \<Rightarrow> (exn + string) \<times> world" where
  "upload_to_s3 E local_path s3_uri w =
     (case parse_s3_uri s3_uri of
        None \<Rightarrow> (Inr local_path, w)
      | Some (bucket, key) \<Rightarrow>
          (case getsize E w local_path of
             Inl e \<Rightarrow> (Inl e, w)
           | Inr fsize \<Rightarrow>
               (if USE_COMPRESSION E
                then (let compressed_key = key @ ''.gz'';
                          compressed_path = local_path @ ''.gz'';
                          w1 = w\<lparr>files := insert compressed_path (files w)\<rparr>
                      in case s3_upload_file E compressed_path bucket compressed_key
                                (fsize > MULTIPART_THRESHOLD) w1 of
                           (Inl e, w2) \<Rightarrow> (Inl e, w2)
                         | (Inr u, w2) \<Rightarrow>
                             (let w3 = w2\<lparr>files := files w2 - {compressed_path}\<rparr>
                              in case s3_upload_file E local_path bucket key
                                        (fsize > MULTIPART_THRESHOLD) w3 of
                                   (Inl e, w4) \<Rightarrow> (Inl e, w4)
                                 | (Inr u', w4) \<Rightarrow> (Inr s3_uri, w4)))
                else (case s3_upload_file E local_path bucket key
                             (fsize > MULTIPART_THRESHOLD) w of
                        (Inl e, w1) \<Rightarrow> (Inl e, w1)
                      | (Inr u, w1) \<Rightarrow> (Inr s3_uri, w1)))))"

section \<open>Real-ESRGAN server: one image\<close>

text \<open>The two result dictionaries that \<^verbatim>\<open>process_single_image\<close> returns.\<close>

definition failure :: "exn \<Rightarrow> jval \<Rightarrow> jval \<Rightarrow> dict" where
  "failure e job_id batch_id =
     [''status'' \<mapsto> JInt 500, ''error'' \<mapsto> JStr (str e),
      ''job_id'' \<mapsto> job_id, ''batch_id'' \<mapsto> batch_id]"

definition success :: "string \<Rightarrow> jval \<Rightarrow> jval \<Rightarrow> dict" where
  "success output_file_path job_id batch_id =
     [''status'' \<mapsto> JInt 200, ''output_file_path'' \<mapsto> JStr output_file_path,
      ''job_id'' \<mapsto> job_id, ''batch_id'' \<mapsto> batch_id]"

text \<open>
  \<^verbatim>\<open>k in input_data and input_data[k].lower() in vals\<close>; \<^verbatim>\<open>lower\<close> exists on strings
  only.
\<close>

definition flag_is :: "dict \<Rightarrow> string \<Rightarrow> string list \<Rightarrow> exn + bool" where
  "flag_is input_data k vals =
     (case input_data k of
        None \<Rightarrow> Inr False
      | Some (JStr s) \<Rightarrow> Inr (lower s \<in> set vals)
      | Some v \<Rightarrow> Inl (AttributeError ''object has no attribute lower''))"

text \<open>
  The tile size handed to the upsampler: \<^verbatim>\<open>tile_size = input_data.get('tile_size', 0)\<close>,
  replaced by 1024 when it equals 0 and the longer side of the image exceeds 1500.
\<close>

definition tile_for :: "dict \<Rightarrow> nat \<times> nat \<Rightarrow> jval" where
  "tile_for input_data shape =
     (let tile_size = (case input_data ''tile_size'' of None \<Rightarrow> JInt 0 | Some v \<Rightarrow> v)
      in if tile_size = JInt 0 \<and> max (fst shape) (snd shape) > 1500 then JInt 1024
         else tile_size)"

text \<open>The \<^verbatim>\<open>try\<close> block that selects and calls the model.\<close>

definition run_model :: "env \<Rightarrow> dict \<Rightarrow> nat \<times> nat \<Rightarrow> world \<Rightarrow> (exn + unit) \<times> world" where
  "run_model E input_data shape w =
     (case flag_is input_data ''face_enhanced'' [''yes''] of
        Inl e \<Rightarrow> (Inl e, w)
      | Inr face \<Rightarrow>
          if face
          then (let w1 = w\<lparr>invocations := invocations w @ [FaceEnhance]\<rparr>
                in case face_enhance E w of Some e \<Rightarrow> (Inl e, w1) | None \<Rightarrow> (Inr (), w1))
          else (case flag_is input_data ''is_anime'' [''yes'', ''true''] of
                  Inl e \<Rightarrow> (Inl e, w)
                | Inr anime \<Rightarrow>
                    (let upsampler = (if anime then ''realesr_gan_anime'' else ''realesr_gan'');
                         tile_size = tile_for input_data shape;
                         w1 = w\<lparr>invocations := invocations w @ [Enhance upsampler tile_size]\<rparr>
                     in case enhance E w upsampler tile_size of
                          Some e \<Rightarrow> (Inl e, w1)
                        | None \<Rightarrow> (Inr (), w1))))"

text \<open>\<^verbatim>\<open>cv2.imwrite\<close> raises, or returns whether it wrote the file.\<close>

definition save_output :: "env \<Rightarrow> string \<Rightarrow> world \<Rightarrow> (exn + unit) \<times> world" where
  "save_output E local_output_path w =
     (case imwrite E w local_output_path of
        Inl e \<Rightarrow> (Inl e, w)
      | Inr written \<Rightarrow>
          (Inr (), if written then w\<lparr>files := insert local_output_path (files w)\<rparr> else w))"

definition copy_output :: "env \<Rightarrow> string \<Rightarrow> string \<Rightarrow> world \<Rightarrow> (exn + unit) \<times> world" where
  "copy_output E src dst w =
     (case copy2 E w src dst of
        Some e \<Rightarrow> (Inl e, w)
      | None \<Rightarrow> (Inr (), w\<lparr>files := insert dst (files w)\<rparr>))"

text \<open>
  \<^verbatim>\<open>process_single_image\<close> from the point where the four required keys have been read:
  download, decode, inference, encode, upload or copy. Every stage sits in its own
  \<^verbatim>\<open>try\<close> whose handler returns the status-500 dictionary.
\<close>

definition process_stages ::
  "env \<Rightarrow> dict \<Rightarrow> string \<Rightarrow> string \<Rightarrow> jval \<Rightarrow> jval \<Rightarrow> world \<Rightarrow> dict \<times> world" where
  "process_stages E input_data input_file_path output_file_path job_id batch_id w =
     (let is_s3_input = startswith input_file_path ''s3://'';
          is_s3_output = startswith output_file_path ''s3://'';
          (imgname, extension) = splitext (basename input_file_path);
          local_input_path = IMAGE_CACHE_DIR @ ''/'' @ imgname @ extension;
          local_output_path = IMAGE_CACHE_DIR @ ''/'' @ imgname @ ''_upscaled'' @ extension;
          (r1, w1) = (if is_s3_input then download_from_s3 E input_file_path local_input_path w
                      else (Inr input_file_path, w))
      in case r1 of
           Inl e \<Rightarrow> (failure e job_id batch_id, w1)
         | Inr path \<Rightarrow>
             (case imread E w1 path of
                Inl e \<Rightarrow> (failure e job_id batch_id, w1)
              | Inr None \<Rightarrow>
                  (failure (ValueError (''Failed to read image from '' @ path)) job_id batch_id, w1)
              | Inr (Some shape) \<Rightarrow>
                  (case run_model E input_data shape w1 of
                     (Inl e, w2) \<Rightarrow> (failure e job_id batch_id, w2)
                   | (Inr u, w2) \<Rightarrow>
                       (case save_output E local_output_path w2 of
                          (Inl e, w3) \<Rightarrow> (failure e job_id batch_id, w3)
                        | (Inr u', w3) \<Rightarrow>
                            if is_s3_output
                            then (case upload_to_s3 E local_output_path output_file_path w3 of
                                    (Inl e, w4) \<Rightarrow> (failure e job_id batch_id, w4)
                                  | (Inr p, w4) \<Rightarrow> (success p job_id batch_id, w4))
                            else if local_output_path \<noteq> output_file_path
                            then (case copy_output E local_output_path output_file_path w3 of
                                    (Inl e, w4) \<Rightarrow> (failure e job_id batch_id, w4)
                                  | (Inr u'', w4) \<Rightarrow>
                                      (success output_file_path job_id batch_id, w4))
                            else (success output_file_path job_id batch_id, w3)))))"

text \<open>
  The same five stages with the handlers left out: the exception that the first failing
  stage raises, or the output path when no stage fails. This is what ``the item fails at
  a stage'' means below.
\<close>

definition stage_outcome ::
  "env \<Rightarrow> dict \<Rightarrow> string \<Rightarrow> string \<Rightarrow> world \<Rightarrow> (exn + string) \<times> world" where
  "stage_outcome E input_data input_file_path output_file_path w =
     (let is_s3_input = startswith input_file_path ''s3://'';
          is_s3_output = startswith output_file_path ''s3://'';
          (imgname, extension) = splitext (basename input_file_path);
          local_input_path = IMAGE_CACHE_DIR @ ''/'' @ imgname @ extension;
          local_output_path = IMAGE_CACHE_DIR @ ''/'' @ imgname @ ''_upscaled'' @ extension;
          (r1, w1) = (if is_s3_input then download_from_s3 E input_file_path local_input_path w
                      else (Inr input_file_path, w))
      in case r1 of
           Inl e \<Rightarrow> (Inl e, w1)
         | Inr path \<Rightarrow>
             (case imread E w1 path of
                Inl e \<Rightarrow> (Inl e, w1)
              | Inr None \<Rightarrow> (Inl (ValueError (''Failed to read image from '' @ path)), w1)
              | Inr (Some shape) \<Rightarrow>
                  (case run_model E input_data shape w1 of
                     (Inl e, w2) \<Rightarrow> (Inl e, w2)
                   | (Inr u, w2) \<Rightarrow>
                       (case save_output E local_output_path w2 of
                          (Inl e, w3) \<Rightarrow> (Inl e, w3)
                        | (Inr u', w3) \<Rightarrow>
                            if is_s3_output
                            then upload_to_s3 E local_output_path output_file_path w3
                            else if local_output_path \<noteq> output_file_path
                            then (case copy_output E local_output_path output_file_path w3 of
                                    (Inl e, w4) \<Rightarrow> (Inl e, w4)
                                  | (Inr u'', w4) \<Rightarrow> (Inr output_file_path, w4))
                            else (Inr output_file_path, w3)))))"

text \<open>
  \<^verbatim>\<open>process_single_image(input_data, model)\<close>. Reading a missing key raises
  \<^verbatim>\<open>KeyError\<close> and \<^verbatim>\<open>startswith\<close> on a value that is no string raises
  \<^verbatim>\<open>AttributeError\<close>, both outside every \<^verbatim>\<open>try\<close>.
\<close>

definition process_single_image :: "env \<Rightarrow> dict \<Rightarrow> world \<Rightarrow> (exn + dict) \<times> world" where
  "process_single_image E input_data w =
     (case input_data ''input_file_path'' of
        None \<Rightarrow> (Inl (KeyError ''input_file_path''), w)
      | Some ifp \<Rightarrow>
     (case input_data ''output_file_path'' of
        None \<Rightarrow> (Inl (KeyError ''output_file_path''), w)
      | Some ofp \<Rightarrow>
     (case input_data ''job_id'' of
        None \<Rightarrow> (Inl (KeyError ''job_id''), w)
      | Some job_id \<Rightarrow>
     (case input_data ''batch_id'' of
        None \<Rightarrow> (Inl (KeyError ''batch_id''), w)
      | Some batch_id \<Rightarrow>
     (case ifp of
        JStr input_file_path \<Rightarrow>
          (case ofp of
             JStr output_file_path \<Rightarrow>
               (let (r, w') = process_stages E input_data input_file_path output_file_path
                                job_id batch_id w
                in (Inr r, w'))
           | _ \<Rightarrow> (Inl (AttributeError ''object has no attribute startswith''), w))
      | _ \<Rightarrow> (Inl (AttributeError ''object has no attribute startswith''), w))))))"

section \<open>Real-ESRGAN server: batch admission\<close>

text \<open>
  What \<^verbatim>\<open>torch.cuda\<close> answers. \<open>batch_estimate\<close> stands for the floating-point expression
  \<^verbatim>\<open>int(free_memory * 0.8 / memory_per_image)\<close>, whose rounding is left to the platform;
  it may raise as well (\<^verbatim>\<open>OverflowError\<close>).
\<close>

record device =
  cuda_is_available :: "exn + bool"
  get_device_properties :: "exn + int"
  memory_reserved :: "exn + int"
  memory_allocated :: "exn + int"
  batch_estimate :: "int \<Rightarrow> exn + int"

text \<open>The body of the \<^verbatim>\<open>try\<close> in \<^verbatim>\<open>determine_optimal_batch_size\<close>.\<close>

definition estimate_batch_size :: "device \<Rightarrow> exn + int" where
  "estimate_batch_size D =
     (case cuda_is_available D of
        Inl e \<Rightarrow> Inl e
      | Inr available \<Rightarrow>
          if available
          then (case get_device_properties D of
                  Inl e \<Rightarrow> Inl e
                | Inr gpu_memory \<Rightarrow>
                    (case memory_reserved D of
                       Inl e \<Rightarrow> Inl e
                     | Inr reserved \<Rightarrow>
                         (case memory_allocated D of
                            Inl e \<Rightarrow> Inl e
                          | Inr allocated \<Rightarrow>
                              (let free_memory = reserved - allocated
                               in case batch_estimate D free_memory of
                                    Inl e \<Rightarrow> Inl e
                                  | Inr q \<Rightarrow>
                                      (let calculated_batch_size = max 1 q
                                       in Inr (min calculated_batch_size 16))))))
          else Inr 4)"

text \<open>\<^verbatim>\<open>except Exception\<close> turns every exception of the body into the default 4.\<close>

definition determine_optimal_batch_size :: "device \<Rightarrow> exn + int" where
  "determine_optimal_batch_size D =
     (case estimate_batch_size D of Inl e \<Rightarrow> Inr 4 | Inr n \<Rightarrow> Inr n)"

section \<open>Real-ESRGAN server: batches\<close>

record batch_request =
  req_batch :: "dict list"
  req_job_id :: "jval option"

record batch_response =
  resp_status :: int
  batch_results :: "dict list"
  resp_job_id :: jval
  total_processed :: int

text \<open>
  A future is the entry \<^verbatim>\<open>(idx, item)\<close> of \<^verbatim>\<open>future_to_item\<close> together with what the
  worker returned or raised.
\<close>

type_synonym future = "(nat \<times> dict) \<times> (exn + dict)"

text \<open>
  The workers of one sub-batch are run one after the other in the order of submission;
  the order in which \<^verbatim>\<open>as_completed\<close> yields the futures of the sub-batch that starts at
  \<open>i\<close> is a parameter. It yields every future once.
\<close>

type_synonym completion = "nat \<Rightarrow> future list \<Rightarrow> future list"

definition valid_completion :: "completion \<Rightarrow> bool" where
  "valid_completion as_completed = (\<forall>i fs. mset (as_completed i fs) = mset fs)"

fun run_workers :: "env \<Rightarrow> dict list \<Rightarrow> world \<Rightarrow> (exn + dict) list \<times> world" where
  "run_workers E [] w = ([], w)"
| "run_workers E (x # xs) w =
     (let (r, w1) = process_single_image E x w;
          (rs, w2) = run_workers E xs w1
      in (r # rs, w2))"

text \<open>\<^verbatim>\<open>{**item, 'job_id': job_id, 'batch_id': idx + i}\<close>\<close>

definition submitted :: "jval \<Rightarrow> nat \<Rightarrow> nat \<times> dict \<Rightarrow> dict" where
  "submitted job_id i p =
     (case p of (idx, item) \<Rightarrow>
        item(''job_id'' \<mapsto> job_id, ''batch_id'' \<mapsto> JInt (int (idx + i))))"

text \<open>The body of the loop over \<^verbatim>\<open>as_completed\<close>: what is appended for one future.\<close>

definition collect :: "jval \<Rightarrow> nat \<Rightarrow> future \<Rightarrow> dict" where
  "collect job_id i f =
     (case f of ((idx, item), out) \<Rightarrow>
        (case out of
           Inr result \<Rightarrow> result
         | Inl e \<Rightarrow>
             [''status'' \<mapsto> JInt 500, ''error'' \<mapsto> JStr (str e), ''job_id'' \<mapsto> job_id,
              ''batch_id'' \<mapsto> JInt (int (idx + i)),
              ''input_file_path'' \<mapsto>
                (case item ''input_file_path'' of None \<Rightarrow> JStr ''unknown'' | Some v \<Rightarrow> v)]))"

text \<open>\<^verbatim>\<open>for i in range(0, len(batch_items), batch_size)\<close>, for a positive step.\<close>

function batch_loop ::
  "env \<Rightarrow> completion \<Rightarrow> jval \<Rightarrow> nat \<Rightarrow> dict list \<Rightarrow> nat \<Rightarrow> dict list \<Rightarrow> world
     \<Rightarrow> dict list \<times> world" where
  "batch_loop E as_completed job_id batch_size batch_items i results w =
     (if batch_size = 0 \<or> length batch_items \<le> i then (results, w)
      else (let sub_batch = take batch_size (drop i batch_items);
                entries = enumerate 0 sub_batch;
                ow = run_workers E (map (submitted job_id i) entries) w;
                futures = zip entries (fst ow);
                results1 = results @ map (collect job_id i) (as_completed i futures)
            in batch_loop E as_completed job_id batch_size batch_items (i + batch_size)
                 results1 (snd ow)))"
  by pat_completeness auto
termination
  by (relation "measure (\<lambda>(E, ac, j, bs, items, i, rs, w). length items - i)") auto

text \<open>
  \<^verbatim>\<open>process_batch(batch_data, model)\<close>. \<^verbatim>\<open>range\<close> raises for step 0 and is empty for a
  negative step.
\<close>

definition process_batch ::
  "env \<Rightarrow> device \<Rightarrow> completion \<Rightarrow> batch_request \<Rightarrow> world \<Rightarrow> (exn + batch_response) \<times> world" where
  "process_batch E D as_completed batch_data w =
     (let batch_items = req_batch batch_data;
          job_id = (case req_job_id batch_data of None \<Rightarrow> JStr ''batch_job'' | Some j \<Rightarrow> j)
      in case determine_optimal_batch_size D of
           Inl e \<Rightarrow> (Inl e, w)
         | Inr batch_size \<Rightarrow>
             if batch_size = 0 then (Inl (ValueError ''range() arg 3 must not be zero''), w)
             else (let (results, w') =
                         (if batch_size < 0 then ([], w)
                          else batch_loop E as_completed job_id (nat batch_size) batch_items 0 [] w)
                   in (Inr \<lparr>resp_status = 200, batch_results = results, resp_job_id = job_id,
                            total_processed = int (length results)\<rparr>, w')))"

section \<open>SwinIR server\<close>

text \<open>The SwinIR server transfers without compression, size probe or multipart settings.\<close>

definition swinir_download_from_s3 ::
  "env \<Rightarrow> string \<Rightarrow> string \<Rightarrow> world \<Rightarrow> (exn + string) \<times> world" where
  "swinir_download_from_s3 E s3_uri local_path w =
     (if local_path \<in> files w then (Inr local_path, w)
      else case parse_s3_uri s3_uri of
        None \<Rightarrow> (Inr s3_uri, w)
      | Some (bucket, key) \<Rightarrow>
          (case s3_download_file E bucket key local_path False w of
             (Inl e, w1) \<Rightarrow> (Inl e, w1)
           | (Inr u, w1) \<Rightarrow> (Inr local_path, w1)))"

definition swinir_upload_to_s3 ::
  "env \<Rightarrow> string \<Rightarrow> string \<Rightarrow> world \<Rightarrow> (exn + string) \<times> world" where
  "swinir_upload_to_s3 E local_path s3_uri w =
     (case parse_s3_uri s3_uri of
        None \<Rightarrow> (Inr local_path, w)
      | Some (bucket, key) \<Rightarrow>
          (case s3_upload_file E local_path bucket key False w of
             (Inl e, w1) \<Rightarrow> (Inl e, w1)
           | (Inr u, w1) \<Rightarrow> (Inr s3_uri, w1)))"

text \<open>The \<^verbatim>\<open>try\<close> block that pads the image and calls the model.\<close>

definition swinir_run_model :: "env \<Rightarrow> world \<Rightarrow> (exn + unit) \<times> world" where
  "swinir_run_model E w =
     (let w1 = w\<lparr>invocations := invocations w @ [SwinIR]\<rparr>
      in case swinir_model E w of Some e \<Rightarrow> (Inl e, w1) | None \<Rightarrow> (Inr (), w1))"

definition swinir_process_stages ::
  "env \<Rightarrow> string \<Rightarrow> string \<Rightarrow> jval \<Rightarrow> jval \<Rightarrow> world \<Rightarrow> dict \<times> world" where
  "swinir_process_stages E input_file_path output_file_path job_id batch_id w =
     (let is_s3_input = startswith input_file_path ''s3://'';
          is_s3_output = startswith output_file_path ''s3://'';
          (imgname, extension) = splitext (basename input_file_path);
          local_input_path = IMAGE_CACHE_DIR @ ''/'' @ imgname @ extension;
          local_output_path = IMAGE_CACHE_DIR @ ''/'' @ imgname @ ''_upscaled'' @ extension;
          (r1, w1) = (if is_s3_input
                      then swinir_download_from_s3 E input_file_path local_input_path w
                      else (Inr input_file_path, w))
      in case r1 of
           Inl e \<Rightarrow> (failure e job_id batch_id, w1)
         | Inr path \<Rightarrow>
             (case imread E w1 path of
                Inl e \<Rightarrow> (failure e job_id batch_id, w1)
              | Inr None \<Rightarrow>
                  (failure (ValueError (''Failed to read image from '' @ path)) job_id batch_id, w1)
              | Inr (Some shape) \<Rightarrow>
                  (case swinir_run_model E w1 of
                     (Inl e, w2) \<Rightarrow> (failure e job_id batch_id, w2)
                   | (Inr u, w2) \<Rightarrow>
                       (case save_output E local_output_path w2 of
                          (Inl e, w3) \<Rightarrow> (failure e job_id batch_id, w3)
                        | (Inr u', w3) \<Rightarrow>
                            if is_s3_output
                            then (case swinir_upload_to_s3 E local_output_path output_file_path w3 of
                                    (Inl e, w4) \<Rightarrow> (failure e job_id batch_id, w4)
                                  | (Inr p, w4) \<Rightarrow> (success p job_id batch_id, w4))
                            else if local_output_path \<noteq> output_file_path
                            then (case copy_output E local_output_path output_file_path w3 of
                                    (Inl e, w4) \<Rightarrow> (failure e job_id batch_id, w4)
                                  | (Inr u'', w4) \<Rightarrow>
                                      (success output_file_path job_id batch_id, w4))
                            else (success output_file_path job_id batch_id, w3)))))"

definition swinir_stage_outcome ::
  "env \<Rightarrow> string \<Rightarrow> string \<Rightarrow> world \<Rightarrow> (exn + string) \<times> world" where
  "swinir_stage_outcome E input_file_path output_file_path w =
     (let is_s3_input = startswith input_file_path ''s3://'';
          is_s3_output = startswith output_file_path ''s3://'';
          (imgname, extension) = splitext (basename input_file_path);
          local_input_path = IMAGE_CACHE_DIR @ ''/'' @ imgname @ extension;
          local_output_path = IMAGE_CACHE_DIR @ ''/'' @ imgname @ ''_upscaled'' @ extension;
          (r1, w1) = (if is_s3_input
                      then swinir_download_from_s3 E input_file_path local_input_path w
                      else (Inr input_file_path, w))
      in case r1 of
           Inl e \<Rightarrow> (Inl e, w1)
         | Inr path \<Rightarrow>
             (case imread E w1 path of
                Inl e \<Rightarrow> (Inl e, w1)
              | Inr None \<Rightarrow> (Inl (ValueError (''Failed to read image from '' @ path)), w1)
              | Inr (Some shape) \<Rightarrow>
                  (case swinir_run_model E w1 of
                     (Inl e, w2) \<Rightarrow> (Inl e, w2)
                   | (Inr u, w2) \<Rightarrow>
                       (case save_output E local_output_path w2 of
                          (Inl e, w3) \<Rightarrow> (Inl e, w3)
                        | (Inr u', w3) \<Rightarrow>
                            if is_s3_output
                            then swinir_upload_to_s3 E local_output_path output_file_path w3
                            else if local_output_path \<noteq> output_file_path
                            then (case copy_output E local_output_path output_file_path w3 of
                                    (Inl e, w4) \<Rightarrow> (Inl e, w4)
                                  | (Inr u'', w4) \<Rightarrow> (Inr output_file_path, w4))
                            else (Inr output_file_path, w3)))))"

definition swinir_process_single_image :: "env \<Rightarrow> dict \<Rightarrow> world \<Rightarrow> (exn + dict) \<times> world" where
  "swinir_process_single_image E input_item w =
     (case input_item ''input_file_path'' of
        None \<Rightarrow> (Inl (KeyError ''input_file_path''), w)
      | Some ifp \<Rightarrow>
     (case input_item ''output_file_path'' of
        None \<Rightarrow> (Inl (KeyError ''output_file_path''), w)
      | Some ofp \<Rightarrow>
     (case input_item ''job_id'' of
        None \<Rightarrow> (Inl (KeyError ''job_id''), w)
      | Some job_id \<Rightarrow>
     (case input_item ''batch_id'' of
        None \<Rightarrow> (Inl (KeyError ''batch_id''), w)
      | Some batch_id \<Rightarrow>
     (case ifp of
        JStr input_file_path \<Rightarrow>
          (case ofp of
             JStr output_file_path \<Rightarrow>
               (let (r, w') = swinir_process_stages E input_file_path output_file_path
                                job_id batch_id w
                in (Inr r, w'))
           | _ \<Rightarrow> (Inl (AttributeError ''object has no attribute startswith''), w))
      | _ \<Rightarrow> (Inl (AttributeError ''object has no attribute startswith''), w))))))"

text \<open>The public entry point returns one dictionary or a list of dictionaries.\<close>

datatype response = Single dict | Many "dict list"

type_synonym swinir_future = "dict \<times> (exn + dict)"

type_synonym swinir_completion = "swinir_future list \<Rightarrow> swinir_future list"

definition swinir_valid_completion :: "swinir_completion \<Rightarrow> bool" where
  "swinir_valid_completion as_completed = (\<forall>fs. mset (as_completed fs) = mset fs)"

fun swinir_run_workers :: "env \<Rightarrow> dict list \<Rightarrow> world \<Rightarrow> (exn + dict) list \<times> world" where
  "swinir_run_workers E [] w = ([], w)"
| "swinir_run_workers E (x # xs) w =
     (let (r, w1) = swinir_process_single_image E x w;
          (rs, w2) = swinir_run_workers E xs w1
      in (r # rs, w2))"

definition swinir_collect :: "swinir_future \<Rightarrow> dict" where
  "swinir_collect f =
     (case f of (item, out) \<Rightarrow>
        (case out of
           Inr result \<Rightarrow> result
         | Inl e \<Rightarrow>
             [''status'' \<mapsto> JInt 500, ''error'' \<mapsto> JStr (str e),
              ''job_id'' \<mapsto> (case item ''job_id'' of None \<Rightarrow> JStr ''unknown'' | Some v \<Rightarrow> v),
              ''batch_id'' \<mapsto>
                (case item ''batch_id'' of None \<Rightarrow> JStr ''unknown'' | Some v \<Rightarrow> v)]))"

text \<open>
  \<^verbatim>\<open>predict_fn(input_data_batch, model)\<close> of the SwinIR server. A batch of one item is
  processed inline, outside every \<^verbatim>\<open>try\<close>. For an empty batch
  \<^verbatim>\<open>ThreadPoolExecutor(max_workers=0)\<close> raises \<^verbatim>\<open>ValueError\<close> inside the outer
  \<^verbatim>\<open>try\<close>, whose handler returns a list with one status-500 dictionary.
\<close>

definition swinir_predict_fn ::
  "env \<Rightarrow> swinir_completion \<Rightarrow> dict list \<Rightarrow> world \<Rightarrow> (exn + response) \<times> world" where
  "swinir_predict_fn E as_completed input_data_batch w =
     (let batch_size = length input_data_batch
      in if batch_size = 1
         then (case swinir_process_single_image E (hd input_data_batch) w of
                 (Inl e, w') \<Rightarrow> (Inl e, w')
               | (Inr result, w') \<Rightarrow> (Inr (Single result), w'))
         else (let max_workers = min batch_size 4
               in if max_workers = 0
                  then (Inr (Many
                          [[''status'' \<mapsto> JInt 500,
                            ''error'' \<mapsto> JStr (''Batch processing error: '' @
                                          str (ValueError ''max_workers must be greater than 0'')),
                            ''job_id'' \<mapsto> JStr ''batch'', ''batch_id'' \<mapsto> JStr ''batch'']]), w)
                  else (let ow = swinir_run_workers E input_data_batch w;
                            futures = zip input_data_batch (fst ow)
                        in (Inr (Many (map swinir_collect (as_completed futures))), snd ow))))"

section \<open>Model loading and memoization\<close>

text \<open>
  \<^verbatim>\<open>functools.lru_cache(maxsize)\<close> around a function \<open>f\<close> of a key and a state. The cache
  lists the memoized results, most recently used first. A hit moves the entry to the front
  and does not call \<open>f\<close>; a miss calls \<open>f\<close>, memoizes a returned value and drops the least
  recently used entry beyond \<open>maxsize\<close>; an exception of \<open>f\<close> is not memoized.
\<close>

definition lru_cache ::
  "nat \<Rightarrow> ('k \<Rightarrow> 's \<Rightarrow> (exn + 'v) \<times> 's) \<Rightarrow> 'k \<Rightarrow> ('k \<times> 'v) list \<times> 's
     \<Rightarrow> (exn + 'v) \<times> (('k \<times> 'v) list \<times> 's)" where
  "lru_cache maxsize f k cs =
     (case cs of (cache, s) \<Rightarrow>
        (case map_of cache k of
           Some v \<Rightarrow> (Inr v, ((k, v) # filter (\<lambda>p. fst p \<noteq> k) cache, s))
         | None \<Rightarrow>
             (case f k s of
                (Inl e, s') \<Rightarrow> (Inl e, (cache, s'))
              | (Inr v, s') \<Rightarrow> (Inr v, (take maxsize ((k, v) # cache), s')))))"

text \<open>
  The expensive load routines: building a \<^verbatim>\<open>RealESRGANer\<close> around one of the two
  architectures, and \<^verbatim>\<open>define_model\<close> followed by the move to the device. A model handle
  is opaque.
\<close>

datatype model_load =
    RealESRGANer_RRDBNet string
  | RealESRGANer_SRVGGNetCompact string
  | Define_model string string int

type_synonym handle = nat

record load_world =
  loads :: "model_load list"
  disk :: "string set"

record load_env =
  construct :: "load_world \<Rightarrow> model_load \<Rightarrow> exn + handle"
  symlink :: "load_world \<Rightarrow> string \<Rightarrow> string \<Rightarrow> exn option"

definition MODEL_CACHE_DIR :: string where
  "MODEL_CACHE_DIR = ''/tmp/model_cache''"

text \<open>\<^verbatim>\<open>os.path.join\<close> of two components.\<close>

definition path_join :: "string \<Rightarrow> string \<Rightarrow> string" where
  "path_join a b =
     (if startswith b ''/'' then b
      else if a = [] \<or> last a = CHR ''/'' then a @ b
      else a @ ''/'' @ b)"

definition run_load :: "load_env \<Rightarrow> model_load \<Rightarrow> load_world \<Rightarrow> (exn + handle) \<times> load_world" where
  "run_load L ld s = (construct L s ld, s\<lparr>loads := loads s @ [ld]\<rparr>)"

subsection \<open>Real-ESRGAN: \<^verbatim>\<open>load_model\<close> under \<^verbatim>\<open>@lru_cache(maxsize=1)\<close>\<close>

type_synonym model_key = "string \<times> string \<times> string"

definition load_model_body ::
  "load_env \<Rightarrow> model_key \<Rightarrow> load_world \<Rightarrow> (exn + handle) \<times> load_world" where
  "load_model_body L k s =
     (case k of (model_name, model_path, model_type) \<Rightarrow>
        (let cache_path = path_join MODEL_CACHE_DIR (model_name @ ''.pt'')
         in if model_type = ''realesrgan'' \<or> model_type = ''anime''
            then (case run_load L (if model_type = ''realesrgan''
                                   then RealESRGANer_RRDBNet model_path
                                   else RealESRGANer_SRVGGNetCompact model_path) s of
                    (Inl e, s1) \<Rightarrow> (Inl e, s1)
                  | (Inr upsampler, s1) \<Rightarrow>
                      if cache_path \<notin> disk s1
                      then (case symlink L s1 model_path cache_path of
                              Some e \<Rightarrow> (Inr upsampler, s1)
                            | None \<Rightarrow>
                                (Inr upsampler, s1\<lparr>disk := insert cache_path (disk s1)\<rparr>))
                      else (Inr upsampler, s1))
            else (Inl (ValueError (''Unknown model type: '' @ model_type)), s)))"

definition load_model ::
  "load_env \<Rightarrow> model_key \<Rightarrow> (model_key \<times> handle) list \<times> load_world
     \<Rightarrow> (exn + handle) \<times> ((model_key \<times> handle) list \<times> load_world)" where
  "load_model L = lru_cache 1 (load_model_body L)"

subsection \<open>SwinIR: \<^verbatim>\<open>model_fn\<close> under \<^verbatim>\<open>@lru_cache(maxsize=5)\<close>\<close>

text \<open>\<^verbatim>\<open>MODEL_VARIANTS\<close>: the file name and the scale of each variant.\<close>

definition MODEL_VARIANTS :: "(string \<times> string \<times> int) list" where
  "MODEL_VARIANTS =
     [(''real_sr'', ''Swin2SR_RealworldSR_X4_64_BSRGAN_PSNR.pth'', 4),
      (''classical_sr'', ''Swin2SR_ClassicalSR_X4_64_PSNR.pth'', 4),
      (''lightweight_sr'', ''Swin2SR_Lightweight_X4_64_PSNR.pth'', 4),
      (''color_dn'', ''Swin2SR_ColorDN_DFWB_s128w8_PSNR.pth'', 1),
      (''jpeg_car'', ''Swin2SR_ColorJPEG_s126w7_PSNR.pth'', 1)]"

definition DEFAULT_MODEL_VARIANT :: string where
  "DEFAULT_MODEL_VARIANT = ''real_sr''"

type_synonym variant_key = "string \<times> string option"

definition model_fn_body ::
  "load_env \<Rightarrow> variant_key \<Rightarrow> load_world \<Rightarrow> (exn + handle) \<times> load_world" where
  "model_fn_body L k s =
     (case k of (model_dir, model_variant_arg) \<Rightarrow>
        (let model_variant =
               (case model_variant_arg of
                  None \<Rightarrow> DEFAULT_MODEL_VARIANT
                | Some v \<Rightarrow> if map_of MODEL_VARIANTS v = None then DEFAULT_MODEL_VARIANT else v)
         in case map_of MODEL_VARIANTS model_variant of
              None \<Rightarrow> (Inl (KeyError model_variant), s)
            | Some (model_name, model_scale) \<Rightarrow>
                if path_join model_dir model_name \<notin> disk s
                then (case map_of MODEL_VARIANTS DEFAULT_MODEL_VARIANT of
                        None \<Rightarrow> (Inl (KeyError DEFAULT_MODEL_VARIANT), s)
                      | Some (default_name, default_scale) \<Rightarrow>
                          run_load L (Define_model (path_join model_dir default_name)
                                        DEFAULT_MODEL_VARIANT default_scale) s)
                else run_load L (Define_model (path_join model_dir model_name)
                                   model_variant model_scale) s))"

definition model_fn ::
  "load_env \<Rightarrow> variant_key \<Rightarrow> (variant_key \<times> handle) list \<times> load_world
     \<Rightarrow> (exn + handle) \<times> ((variant_key \<times> handle) list \<times> load_world)" where
  "model_fn L = lru_cache 5 (model_fn_body L)"

text \<open>Resolving a list of keys one after the other, whatever each call returns.\<close>

fun resolve_all ::
  "('k \<Rightarrow> ('k \<times> 'v) list \<times> 's \<Rightarrow> (exn + 'v) \<times> (('k \<times> 'v) list \<times> 's))
     \<Rightarrow> 'k list \<Rightarrow> ('k \<times> 'v) list \<times> 's \<Rightarrow> ('k \<times> 'v) list \<times> 's" where
  "resolve_all resolve [] cs = cs"
| "resolve_all resolve (k # ks) cs = resolve_all resolve ks (snd (resolve k cs))"

section \<open>Auxiliary notions and concrete scenarios\<close>

text \<open>The result dictionary that belongs to the outcome of the stages.\<close>

definition entry_of :: "jval \<Rightarrow> jval \<Rightarrow> (exn + string) \<times> world \<Rightarrow> dict \<times> world" where
  "entry_of j k rw =
     (case rw of (Inl e, w') \<Rightarrow> (failure e j k, w') | (Inr p, w') \<Rightarrow> (success p j k, w'))"

definition shift :: "nat \<Rightarrow> nat \<times> dict \<Rightarrow> nat \<times> dict" where
  "shift i p = (fst p + i, snd p)"

text \<open>The top-level status of a response of the SwinIR server; a list has none.\<close>

fun response_status :: "response \<Rightarrow> jval option" where
  "response_status (Single r) = r ''status''"
| "response_status (Many rs) = None"

text \<open>
  A scenario: an empty disk, every collaborator succeeds, \<^verbatim>\<open>bad.png\<close> cannot be
  decoded, \<^verbatim>\<open>big.png\<close> is 2000 by 1000 pixels, and S3 refuses the compressed sibling of
  \<^verbatim>\<open>a_upscaled.png\<close>.
\<close>

definition world0 :: world where
  "world0 = \<lparr>files = {}, net = [], invocations = []\<rparr>"

definition test_env :: env where
  "test_env =
     \<lparr>USE_COMPRESSION = False,
      head_object = (\<lambda>w bucket key. Inr 1024),
      get_object = (\<lambda>w bucket key. None),
      gzip_read = (\<lambda>w bucket key. None),
      download_file = (\<lambda>w bucket key p. None),
      upload_file = (\<lambda>w p bucket key.
         if p = ''/tmp/image_cache/a_upscaled.png.gz'' then Some (ClientError ''AccessDenied'')
         else None),
      file_size = (\<lambda>w p. 1024),
      imread = (\<lambda>w p. if p = ''bad.png'' then Inr None
                       else if p = ''big.png'' then Inr (Some (2000, 1000))
                       else Inr (Some (64, 64))),
      enhance = (\<lambda>w name tile. None),
      face_enhance = (\<lambda>w. None),
      swinir_model = (\<lambda>w. None),
      imwrite = (\<lambda>w p. Inr True),
      copy2 = (\<lambda>w src dst. None)\<rparr>"

definition compressing_env :: env where
  "compressing_env = test_env\<lparr>USE_COMPRESSION := True\<rparr>"

definition cpu_device :: device where
  "cpu_device =
     \<lparr>cuda_is_available = Inr False, get_device_properties = Inr 0, memory_reserved = Inr 0,
      memory_allocated = Inr 0, batch_estimate = (\<lambda>free_memory. Inr 0)\<rparr>"

definition gpu_device :: device where
  "gpu_device =
     \<lparr>cuda_is_available = Inr True, get_device_properties = Inr 17179869184,
      memory_reserved = Inr 8589934592, memory_allocated = Inr 2147483648,
      batch_estimate = (\<lambda>free_memory. Inr ((free_memory * 4) div (5 * 524288000)))\<rparr>"

definition broken_device :: device where
  "broken_device = gpu_device\<lparr>get_device_properties := Inl (RuntimeError ''CUDA error'')\<rparr>"

definition item_a :: dict where
  "item_a = [''input_file_path'' \<mapsto> JStr ''a.png'', ''output_file_path'' \<mapsto> JStr ''out_a.png'',
             ''job_id'' \<mapsto> JStr ''j1'', ''batch_id'' \<mapsto> JStr ''7'']"

definition item_bad :: dict where
  "item_bad = [''input_file_path'' \<mapsto> JStr ''bad.png'',
               ''output_file_path'' \<mapsto> JStr ''out_bad.png'',
               ''job_id'' \<mapsto> JStr ''j2'', ''batch_id'' \<mapsto> JStr ''8'']"

definition item_big :: dict where
  "item_big = [''input_file_path'' \<mapsto> JStr ''big.png'',
               ''output_file_path'' \<mapsto> JStr ''out_big.png'',
               ''job_id'' \<mapsto> JStr ''j3'', ''batch_id'' \<mapsto> JStr ''9'']"

definition load_world0 :: load_world where
  "load_world0 = \<lparr>loads = [], disk = {}\<rparr>"

text \<open>A loader whose handles count the loads performed so far.\<close>

definition test_loader :: load_env where
  "test_loader = \<lparr>construct = (\<lambda>s ld. Inr (length (loads s))), symlink = (\<lambda>s src dst. None)\<rparr>"

definition key_standard :: model_key where
  "key_standard = (''realesrgan_x4plus'', ''/opt/ml/model/RealESRGAN_x4plus.pth'', ''realesrgan'')"

definition key_anime :: model_key where
  "key_anime = (''realesrgan_anime'', ''/opt/ml/model/realesr-animevideov3.pth'', ''anime'')"

text \<open>\<^verbatim>\<open>job_id = batch_data.get('job_id', 'batch_job')\<close>\<close>

definition job_of :: "batch_request \<Rightarrow> jval" where
  "job_of batch_data = (case req_job_id batch_data of None \<Rightarrow> JStr ''batch_job'' | Some j \<Rightarrow> j)"

definition test_batch :: batch_request where
  "test_batch = \<lparr>req_batch = [item_bad, item_a], req_job_id = Some (JStr ''job7'')\<rparr>"

text \<open>
  The tiling policy in the words of the specification: 1024 when the requested tile size is
  unset or 0 and the longer side exceeds 1500 pixels, otherwise the requested tile size,
  0 when unset.
\<close>

definition spec_tile_size :: "jval option \<Rightarrow> nat \<Rightarrow> nat \<Rightarrow> jval" where
  "spec_tile_size requested height width =
     (if (requested = None \<or> requested = Some (JInt 0)) \<and> max height width > 1500 then JInt 1024
      else (case requested of None \<Rightarrow> JInt 0 | Some t \<Rightarrow> t))"

text \<open>The keys that are more recently used than \<open>k\<close> in a cache.\<close>

definition front :: "'k \<Rightarrow> ('k \<times> 'v) list \<Rightarrow> 'k set" where
  "front k cache = set (takeWhile (\<lambda>x. x \<noteq> k) (map fst cache))"

definition key_default :: variant_key where
  "key_default = (''/opt/ml/model'', None)"

definition key_bogus :: variant_key where
  "key_bogus = (''/opt/ml/model'', Some ''bogus'')"

section \<open>Blob transfer\<close>

lemma s3_download_file_ok:
  "s3_download_file E b k lp m w = (Inr u, w') \<Longrightarrow> lp \<in> files w'"
  by (auto simp: s3_download_file_def split: option.splits)

lemma download_compressed_ok:
  "download_compressed E b k lp w = (Inr u, w') \<Longrightarrow> lp \<in> files w'"
  by (auto simp: download_compressed_def s3_head_object_def s3_get_object_def Let_def
      split: option.splits sum.splits prod.splits)

text \<open>A download that returns has either produced the local file or was given a local path.\<close>

lemma download_from_s3_ok:
  assumes "download_from_s3 E u lp w = (Inr p, w')"
  shows "(p = lp \<and> lp \<in> files w') \<or> (p = u \<and> w' = w \<and> parse_s3_uri u = None \<and> lp \<notin> files w)"
  using assms
  by (auto simp: download_from_s3_def s3_head_object_def download_regular_def Let_def
      dest: s3_download_file_ok download_compressed_ok
      split: option.splits sum.splits prod.splits if_splits)

text \<open>
  C7. If the local cache path exists, \<^verbatim>\<open>download_from_s3\<close> returns it at once and the
  world, in particular the log of network operations, is unchanged. Consequently, after a
  call that returned, a second call with the same arguments returns the same path and
  performs no network operation.
\<close>

theorem download_from_s3_cached:
  "(local_path \<in> files w \<longrightarrow> download_from_s3 E s3_uri local_path w = (Inr local_path, w)) \<and>
   (download_from_s3 E s3_uri local_path w = (Inr p, w1) \<longrightarrow>
      download_from_s3 E s3_uri local_path w1 = (Inr p, w1) \<and>
      net (snd (download_from_s3 E s3_uri local_path w1)) = net w1)"
proof (intro conjI impI)
  assume "local_path \<in> files w"
  then show "download_from_s3 E s3_uri local_path w = (Inr local_path, w)"
    by (simp add: download_from_s3_def)
next
  assume a: "download_from_s3 E s3_uri local_path w = (Inr p, w1)"
  from download_from_s3_ok[OF a]
  show again: "download_from_s3 E s3_uri local_path w1 = (Inr p, w1)"
    by (auto simp: download_from_s3_def)
  then show "net (snd (download_from_s3 E s3_uri local_path w1)) = net w1"
    by simp
qed

theorem download_from_s3_cached_witness:
  "download_from_s3 test_env ''s3://bucket/in/a.png'' ''/tmp/image_cache/a.png'' world0 =
     (Inr ''/tmp/image_cache/a.png'',
      \<lparr>files = {''/tmp/image_cache/a.png''},
       net = [HeadObject ''bucket'' ''in/a.png'',
              DownloadFile ''bucket'' ''in/a.png'' ''/tmp/image_cache/a.png'' False],
       invocations = []\<rparr>) \<and>
   net (snd (download_from_s3 test_env ''s3://bucket/in/a.png'' ''/tmp/image_cache/a.png''
     \<lparr>files = {''/tmp/image_cache/a.png''},
      net = [HeadObject ''bucket'' ''in/a.png'',
             DownloadFile ''bucket'' ''in/a.png'' ''/tmp/image_cache/a.png'' False],
      invocations = []\<rparr>)) =
     [HeadObject ''bucket'' ''in/a.png'',
      DownloadFile ''bucket'' ''in/a.png'' ''/tmp/image_cache/a.png'' False] \<and>
   download_from_s3 test_env ''s3://bucket/in/b.png'' ''/tmp/image_cache/a.png''
     (world0\<lparr>files := {''/tmp/image_cache/a.png''}\<rparr>) =
     (Inr ''/tmp/image_cache/a.png'', world0\<lparr>files := {''/tmp/image_cache/a.png''}\<rparr>)"
proof -
  let ?w1 = "\<lparr>files = {''/tmp/image_cache/a.png''},
       net = [HeadObject ''bucket'' ''in/a.png'',
              DownloadFile ''bucket'' ''in/a.png'' ''/tmp/image_cache/a.png'' False],
       invocations = []\<rparr>"
  have first: "download_from_s3 test_env ''s3://bucket/in/a.png'' ''/tmp/image_cache/a.png'' world0
               = (Inr ''/tmp/image_cache/a.png'', ?w1)"
    by (simp add: download_from_s3_def parse_s3_uri_def startswith_def world0_def test_env_def
        s3_head_object_def download_regular_def s3_download_file_def MULTIPART_THRESHOLD_def
        Let_def)
  have cached: "''/tmp/image_cache/a.png'' \<in> files (world0\<lparr>files := {''/tmp/image_cache/a.png''}\<rparr>)"
    by simp
  from download_from_s3_cached[of "''/tmp/image_cache/a.png''"
      "world0\<lparr>files := {''/tmp/image_cache/a.png''}\<rparr>" test_env "''s3://bucket/in/b.png''"]
    cached
  have hit: "download_from_s3 test_env ''s3://bucket/in/b.png'' ''/tmp/image_cache/a.png''
     (world0\<lparr>files := {''/tmp/image_cache/a.png''}\<rparr>) =
     (Inr ''/tmp/image_cache/a.png'', world0\<lparr>files := {''/tmp/image_cache/a.png''}\<rparr>)"
    by blast
  from download_from_s3_cached[of "''/tmp/image_cache/a.png''" world0 test_env
      "''s3://bucket/in/a.png''" "''/tmp/image_cache/a.png''" ?w1] first
  have "net (snd (download_from_s3 test_env ''s3://bucket/in/a.png''
          ''/tmp/image_cache/a.png'' ?w1)) = net ?w1"
    by blast
  then show ?thesis using first hit by simp
qed

text \<open>
  C8. With compression enabled, \<^verbatim>\<open>upload_to_s3\<close> creates the sibling file
  \<^verbatim>\<open>local_path + '.gz'\<close>. When the upload of that file raises, the exception leaves the
  function before \<^verbatim>\<open>os.remove\<close> is reached, and the sibling file stays on disk.
\<close>

theorem upload_to_s3_leaves_compressed_file:
  "fst (upload_to_s3 compressing_env ''/tmp/image_cache/a_upscaled.png'' ''s3://bucket/out/a.png''
          (world0\<lparr>files := {''/tmp/image_cache/a_upscaled.png''}\<rparr>))
     = Inl (ClientError ''AccessDenied'') \<and>
   ''/tmp/image_cache/a_upscaled.png.gz''
     \<in> files (snd (upload_to_s3 compressing_env ''/tmp/image_cache/a_upscaled.png''
                     ''s3://bucket/out/a.png''
                     (world0\<lparr>files := {''/tmp/image_cache/a_upscaled.png''}\<rparr>)))"
  by (simp add: upload_to_s3_def parse_s3_uri_def startswith_def getsize_def compressing_env_def
      test_env_def world0_def s3_upload_file_def MULTIPART_THRESHOLD_def Let_def)

text \<open>When \<^verbatim>\<open>upload_to_s3\<close> returns, the sibling file is gone.\<close>

lemma upload_to_s3_success_removes:
  assumes "USE_COMPRESSION E" "parse_s3_uri s3_uri = Some bk"
    and "upload_to_s3 E local_path s3_uri w = (Inr p, w')"
  shows "local_path @ ''.gz'' \<notin> files w'"
  using assms
  by (auto simp: upload_to_s3_def s3_upload_file_def Let_def
      split: option.splits sum.splits prod.splits if_splits)

section \<open>Batch admission\<close>

lemma batch_size_range:
  "\<exists>n. determine_optimal_batch_size D = Inr n \<and> 1 \<le> n \<and> n \<le> 16"
  by (auto simp: determine_optimal_batch_size_def estimate_batch_size_def Let_def
      split: sum.splits)

text \<open>
  C3. \<^verbatim>\<open>determine_optimal_batch_size\<close> never raises: it returns a value between 1 and
  16; without an accelerator, and whenever the estimation raises, it returns 4.
\<close>

theorem determine_optimal_batch_size_safe:
  "(\<exists>n. determine_optimal_batch_size D = Inr n \<and> 1 \<le> n \<and> n \<le> 16) \<and>
   (cuda_is_available D = Inr False \<longrightarrow> determine_optimal_batch_size D = Inr 4) \<and>
   (estimate_batch_size D = Inl e \<longrightarrow> determine_optimal_batch_size D = Inr 4)"
  by (auto simp: determine_optimal_batch_size_def estimate_batch_size_def Let_def
      split: sum.splits)

theorem determine_optimal_batch_size_safe_witness:
  "cuda_is_available cpu_device = Inr False \<and>
   determine_optimal_batch_size cpu_device = Inr 4 \<and>
   estimate_batch_size broken_device = Inl (RuntimeError ''CUDA error'') \<and>
   determine_optimal_batch_size broken_device = Inr 4 \<and>
   determine_optimal_batch_size gpu_device = Inr 9"
proof -
  have cpu: "cuda_is_available cpu_device = Inr False"
    by (simp add: cpu_device_def)
  have broken: "estimate_batch_size broken_device = Inl (RuntimeError ''CUDA error'')"
    by (simp add: estimate_batch_size_def broken_device_def gpu_device_def)
  have gpu: "determine_optimal_batch_size gpu_device = Inr 9"
    by (simp add: determine_optimal_batch_size_def estimate_batch_size_def gpu_device_def)
  from determine_optimal_batch_size_safe[of cpu_device] cpu
  have "determine_optimal_batch_size cpu_device = Inr 4" by blast
  moreover from determine_optimal_batch_size_safe[of broken_device "RuntimeError ''CUDA error''"]
    broken
  have "determine_optimal_batch_size broken_device = Inr 4" by blast
  ultimately show ?thesis using cpu broken gpu by simp
qed

section \<open>One image\<close>

lemma entry_of_simps:
  "entry_of j k (Inl e, w) = (failure e j k, w)"
  "entry_of j k (Inr p, w) = (success p j k, w)"
  by (simp_all add: entry_of_def)

lemma process_stages_outcome:
  "process_stages E d a b j k w = entry_of j k (stage_outcome E d a b w)"
  unfolding process_stages_def stage_outcome_def Let_def
  apply (simp only: prod.case_distrib[of "entry_of j k"] sum.case_distrib[of "entry_of j k"]
      option.case_distrib[of "entry_of j k"] if_distrib[of "entry_of j k"] entry_of_simps)
  apply (simp only: entry_of_def)
  done

lemma entry_of_fields:
  "fst (entry_of j k rw) ''job_id'' = Some j"
  "fst (entry_of j k rw) ''batch_id'' = Some k"
  "fst (entry_of j k rw) ''status'' = Some (JInt 200) \<or>
   fst (entry_of j k rw) ''status'' = Some (JInt 500) \<and>
   (\<exists>m. fst (entry_of j k rw) ''error'' = Some (JStr m))"
  by (auto simp: entry_of_def failure_def success_def split: prod.splits sum.splits)

lemma process_single_image_Inr:
  assumes "process_single_image E d w = (Inr r, w')"
  shows "\<exists>a b j k. d ''input_file_path'' = Some (JStr a) \<and> d ''output_file_path'' = Some (JStr b)
           \<and> d ''job_id'' = Some j \<and> d ''batch_id'' = Some k
           \<and> (r, w') = entry_of j k (stage_outcome E d a b w)"
  using assms
  by (auto simp: process_single_image_def process_stages_outcome
      split: option.splits jval.splits prod.splits)

lemma process_single_image_wellformed:
  assumes "d ''input_file_path'' = Some (JStr a)" "d ''output_file_path'' = Some (JStr b)"
    "d ''job_id'' = Some j" "d ''batch_id'' = Some k"
  shows "process_single_image E d w =
           (Inr (fst (entry_of j k (stage_outcome E d a b w))),
            snd (entry_of j k (stage_outcome E d a b w)))"
  using assms
  by (simp add: process_single_image_def process_stages_outcome split: prod.splits)

section \<open>Batches\<close>

declare batch_loop.simps [simp del]

lemma run_workers_outs:
  "list_all2 (\<lambda>x out. \<exists>wp. out = fst (process_single_image E x wp)) xs (fst (run_workers E xs w))"
proof (induction xs arbitrary: w)
  case Nil
  then show ?case by simp
next
  case (Cons x xs)
  obtain r w1 where r: "process_single_image E x w = (r, w1)" by (cases "process_single_image E x w")
  obtain rs w2 where rs: "run_workers E xs w1 = (rs, w2)" by (cases "run_workers E xs w1")
  have "\<exists>wp. r = fst (process_single_image E x wp)" using r by (metis fst_conv)
  moreover have "list_all2 (\<lambda>x out. \<exists>wp. out = fst (process_single_image E x wp)) xs rs"
    using Cons.IH[of w1] rs by simp
  ultimately show ?case using r rs by auto
qed

lemma enumerate_shift: "map (shift i) (enumerate n xs) = enumerate (n + i) xs"
  by (induction xs arbitrary: n) (simp_all add: shift_def)

lemma sub_batch_step:
  assumes "valid_completion ac"
  shows "list_all2 (\<lambda>p out. \<exists>wp. out = fst (process_single_image E (submitted job 0 p) wp)) (enumerate i sub) (fst (run_workers E (map (submitted job i) (enumerate 0 sub)) w))
       \<and> mset (map (collect job i) (ac i (zip (enumerate 0 sub) (fst (run_workers E (map (submitted job i) (enumerate 0 sub)) w)))))
         = mset (map (collect job 0) (zip (enumerate i sub) (fst (run_workers E (map (submitted job i) (enumerate 0 sub)) w))))"
proof -
  let ?entries = "enumerate 0 sub"
  let ?outs = "fst (run_workers E (map (submitted job i) ?entries) w)"
  have sub: "submitted job i = (\<lambda>p. submitted job 0 (shift i p))"
    by (rule ext) (simp add: submitted_def shift_def split: prod.splits)
  have col: "\<And>p out. collect job i (p, out) = collect job 0 (shift i p, out)"
    by (simp add: collect_def shift_def split: prod.splits sum.splits)
  have en: "enumerate i sub = map (shift i) ?entries"
    by (simp add: enumerate_shift)
  have "list_all2 (\<lambda>x out. \<exists>wp. out = fst (process_single_image E x wp))
          (map (submitted job i) ?entries) ?outs"
    by (rule run_workers_outs)
  then have l2: "list_all2 (\<lambda>p out. \<exists>wp. out = fst (process_single_image E (submitted job 0 p) wp)) (map (shift i) ?entries) ?outs"
    by (simp add: list_all2_map1 sub)
  have "mset (map (collect job i) (ac i (zip ?entries ?outs)))
        = image_mset (collect job i) (mset (ac i (zip ?entries ?outs)))" by simp
  also have "\<dots> = image_mset (collect job i) (mset (zip ?entries ?outs))"
    using assms(1) by (simp add: valid_completion_def)
  also have "\<dots> = mset (map (collect job i) (zip ?entries ?outs))" by simp
  also have "map (collect job i) (zip ?entries ?outs)
             = map (collect job 0) (zip (map (shift i) ?entries) ?outs)"
    by (simp add: zip_map1 split_def) (metis col prod.collapse)
  finally show ?thesis using l2 en by simp
qed

lemma batch_loop_outcomes:
  assumes "valid_completion ac" "0 < bs"
  shows "\<exists>outs.
           list_all2 (\<lambda>p out. \<exists>wp. out = fst (process_single_image E (submitted job 0 p) wp))
             (enumerate i (drop i items)) outs
         \<and> mset (fst (batch_loop E ac job bs items i results w))
           = mset results + mset (map (collect job 0) (zip (enumerate i (drop i items)) outs))"
  using assms
proof (induction E ac job bs items i results w rule: batch_loop.induct)
  case (1 E ac job bs items i results w)
  let ?P = "\<lambda>p out. \<exists>wp. out = fst (process_single_image E (submitted job 0 p) wp)"
  show ?case
  proof (cases "length items \<le> i")
    case True
    then show ?thesis using 1(3) by (simp add: batch_loop.simps)
  next
    case False
    define sub where "sub = take bs (drop i items)"
    define ow where "ow = run_workers E (map (submitted job i) (enumerate 0 sub)) w"
    define results1 where
      "results1 = results @ map (collect job i) (ac i (zip (enumerate 0 sub) (fst ow)))"
    have unfold: "batch_loop E ac job bs items i results w
                  = batch_loop E ac job bs items (i + bs) results1 (snd ow)"
      using False 1(3)
      by (subst batch_loop.simps) (simp add: Let_def sub_def ow_def results1_def)
    from 1(1)[OF _ sub_def refl ow_def refl results1_def 1(2) 1(3)] False 1(3)
    obtain rest where rest: "list_all2 ?P (enumerate (i + bs) (drop (i + bs) items)) rest"
      and m: "mset (fst (batch_loop E ac job bs items (i + bs) results1 (snd ow)))
              = mset results1 + mset (map (collect job 0)
                    (zip (enumerate (i + bs) (drop (i + bs) items)) rest))"
      by auto
    from sub_batch_step[OF 1(2), of E job i sub w]
    have l2: "list_all2 ?P (enumerate i sub) (fst ow)"
      and ms: "mset (map (collect job i) (ac i (zip (enumerate 0 sub) (fst ow))))
               = mset (map (collect job 0) (zip (enumerate i sub) (fst ow)))"
      by (simp_all add: ow_def)
    have split: "drop i items = sub @ drop (i + bs) items"
      unfolding sub_def by (metis append_take_drop_id drop_drop add.commute)
    have tail: "enumerate (i + length sub) (drop (i + bs) items)
                = enumerate (i + bs) (drop (i + bs) items)"
    proof (cases "bs \<le> length items - i")
      case True
      then show ?thesis by (simp add: sub_def min_def)
    next
      case False
      then show ?thesis by simp
    qed
    have en: "enumerate i (drop i items)
              = enumerate i sub @ enumerate (i + bs) (drop (i + bs) items)"
      by (subst split) (simp add: enumerate_append_eq tail)
    have len: "length (enumerate i sub) = length (fst ow)"
      using l2 by (rule list_all2_lengthD)
    have "list_all2 ?P (enumerate i (drop i items)) (fst ow @ rest)"
      unfolding en using l2 rest by (rule list_all2_appendI)
    moreover have "mset (fst (batch_loop E ac job bs items i results w))
        = mset results + mset (map (collect job 0)
             (zip (enumerate i (drop i items)) (fst ow @ rest)))"
      unfolding unfold m en using len ms by (simp add: results1_def)
    ultimately show ?thesis by blast
  qed
qed


lemma collect_worker:
  assumes "out = fst (process_single_image E (submitted job 0 (p, item)) wp)"
  shows "collect job 0 ((p, item), out) ''job_id'' = Some job"
    and "collect job 0 ((p, item), out) ''batch_id'' = Some (JInt (int p))"
    and "collect job 0 ((p, item), out) ''status'' = Some (JInt 200) \<or>
         collect job 0 ((p, item), out) ''status'' = Some (JInt 500) \<and>
         (\<exists>m. collect job 0 ((p, item), out) ''error'' = Some (JStr m))"
proof -
  have "collect job 0 ((p, item), out) ''job_id'' = Some job \<and>
        collect job 0 ((p, item), out) ''batch_id'' = Some (JInt (int p)) \<and>
        (collect job 0 ((p, item), out) ''status'' = Some (JInt 200) \<or>
         collect job 0 ((p, item), out) ''status'' = Some (JInt 500) \<and>
         (\<exists>m. collect job 0 ((p, item), out) ''error'' = Some (JStr m)))"
  proof (cases out)
    case (Inl e)
    then show ?thesis by (simp add: collect_def)
  next
    case (Inr r)
    obtain w' where "process_single_image E (submitted job 0 (p, item)) wp = (Inr r, w')"
      using assms Inr by (cases "process_single_image E (submitted job 0 (p, item)) wp") simp
    from process_single_image_Inr[OF this]
    obtain a b j k where jk: "submitted job 0 (p, item) ''job_id'' = Some j"
      "submitted job 0 (p, item) ''batch_id'' = Some k"
      and r: "(r, w') = entry_of j k (stage_outcome E (submitted job 0 (p, item)) a b wp)"
      by blast
    from jk have "j = job" "k = JInt (int p)" by (simp_all add: submitted_def)
    moreover from r have "r = fst (entry_of j k (stage_outcome E (submitted job 0 (p, item)) a b wp))"
      by (metis fst_conv)
    ultimately show ?thesis using Inr entry_of_fields[of job "JInt (int p)"]
      by (simp add: collect_def)
  qed
  then show "collect job 0 ((p, item), out) ''job_id'' = Some job"
    and "collect job 0 ((p, item), out) ''batch_id'' = Some (JInt (int p))"
    and "collect job 0 ((p, item), out) ''status'' = Some (JInt 200) \<or>
         collect job 0 ((p, item), out) ''status'' = Some (JInt 500) \<and>
         (\<exists>m. collect job 0 ((p, item), out) ''error'' = Some (JStr m))"
    by blast+
qed

lemma collected_batch_ids:
  assumes "list_all2 (\<lambda>p out. \<exists>wp. out = fst (process_single_image E (submitted job 0 p) wp))
             entries outs"
  shows "map (\<lambda>f. collect job 0 f ''batch_id'') (zip entries outs)
         = map (\<lambda>p. Some (JInt (int (fst p)))) entries"
  using assms
proof (induction entries outs rule: list_all2_induct)
  case Nil
  then show ?case by simp
next
  case (Cons x xs y ys)
  obtain p item where x: "x = (p, item)" by (cases x)
  from Cons.hyps(1) x obtain wp where "y = fst (process_single_image E (submitted job 0 (p, item)) wp)"
    by blast
  from collect_worker(2)[OF this] show ?case using Cons.IH x by simp
qed

lemma collected_entries:
  assumes "list_all2 (\<lambda>p out. \<exists>wp. out = fst (process_single_image E (submitted job 0 p) wp))
             entries outs"
    and "r \<in> set (map (collect job 0) (zip entries outs))"
  shows "r ''job_id'' = Some job \<and> (\<exists>p \<in> fst ` set entries. r ''batch_id'' = Some (JInt (int p))) \<and>
         (r ''status'' = Some (JInt 200) \<or>
          r ''status'' = Some (JInt 500) \<and> (\<exists>m. r ''error'' = Some (JStr m)))"
proof -
  from assms(2) obtain p item out where f: "((p, item), out) \<in> set (zip entries outs)"
    and r: "r = collect job 0 ((p, item), out)" by auto
  from f assms(1) have "\<exists>wp. out = fst (process_single_image E (submitted job 0 (p, item)) wp)"
    by (auto simp: list_all2_iff)
  then obtain wp where o: "out = fst (process_single_image E (submitted job 0 (p, item)) wp)" ..
  from f have "(p, item) \<in> set entries" by (rule set_zip_leftD)
  then have "p \<in> fst ` set entries" by force
  then show ?thesis using collect_worker[OF o] r by blast
qed

lemma process_batch_outcomes:
  assumes "valid_completion ac"
  shows "\<exists>resp w' outs.
           process_batch E D ac batch_data w = (Inr resp, w')
         \<and> resp_status resp = 200
         \<and> resp_job_id resp = job_of batch_data
         \<and> total_processed resp = int (length (batch_results resp))
         \<and> list_all2 (\<lambda>p out. \<exists>wp. out = fst (process_single_image E
                          (submitted (job_of batch_data) 0 p) wp))
             (enumerate 0 (req_batch batch_data)) outs
         \<and> mset (batch_results resp)
           = mset (map (collect (job_of batch_data) 0)
                    (zip (enumerate 0 (req_batch batch_data)) outs))"
proof -
  obtain n where n: "determine_optimal_batch_size D = Inr n" "1 \<le> n" "n \<le> 16"
    using batch_size_range by blast
  then have pos: "0 < nat n" by simp
  from batch_loop_outcomes[OF assms pos, of E "job_of batch_data" 0 "req_batch batch_data" "[]" w]
  obtain outs where
    "list_all2 (\<lambda>p out. \<exists>wp. out = fst (process_single_image E
                          (submitted (job_of batch_data) 0 p) wp))
             (enumerate 0 (req_batch batch_data)) outs"
    "mset (fst (batch_loop E ac (job_of batch_data) (nat n) (req_batch batch_data) 0 [] w))
     = mset (map (collect (job_of batch_data) 0) (zip (enumerate 0 (req_batch batch_data)) outs))"
    by auto
  then show ?thesis using n
    by (auto simp: process_batch_def job_of_def Let_def split_def)
qed

text \<open>Completion in reverse order of submission is a valid order.\<close>

lemma valid_rev: "valid_completion (\<lambda>i. rev)"
  by (simp add: valid_completion_def)

text \<open>
  C1. For a batch of \<open>N\<close> items \<^verbatim>\<open>process_batch\<close> returns a response with exactly
  \<open>N\<close> result entries and \<^verbatim>\<open>total_processed\<close> equal to \<open>N\<close>, whatever the workers
  return or raise; the entries carry the positions \<open>0, ..., N - 1\<close>, each exactly once,
  so no item is dropped and none is reported twice.
\<close>

theorem process_batch_one_result_per_item:
  assumes "valid_completion ac"
  shows "\<exists>resp w'. process_batch E D ac batch_data w = (Inr resp, w')
           \<and> length (batch_results resp) = length (req_batch batch_data)
           \<and> total_processed resp = int (length (req_batch batch_data))
           \<and> mset (map (\<lambda>r. r ''batch_id'') (batch_results resp))
             = mset (map (\<lambda>p. Some (JInt (int p))) [0..<length (req_batch batch_data)])"
proof -
  let ?items = "req_batch batch_data"
  let ?job = "job_of batch_data"
  from process_batch_outcomes[OF assms, of E D batch_data w]
  obtain resp w' outs where pb: "process_batch E D ac batch_data w = (Inr resp, w')"
    and tp: "total_processed resp = int (length (batch_results resp))"
    and l2: "list_all2 (\<lambda>p out. \<exists>wp. out = fst (process_single_image E (submitted ?job 0 p) wp))
               (enumerate 0 ?items) outs"
    and ms: "mset (batch_results resp) = mset (map (collect ?job 0) (zip (enumerate 0 ?items) outs))"
    by blast
  have len_outs: "length outs = length ?items"
    using list_all2_lengthD[OF l2] by simp
  have "size (mset (batch_results resp)) = length (zip (enumerate 0 ?items) outs)"
    unfolding ms by simp
  then have len: "length (batch_results resp) = length ?items"
    using len_outs by simp
  have "mset (map (\<lambda>r. r ''batch_id'') (batch_results resp))
        = image_mset (\<lambda>r. r ''batch_id'') (mset (batch_results resp))" by simp
  also have "\<dots> = mset (map (\<lambda>f. collect ?job 0 f ''batch_id'') (zip (enumerate 0 ?items) outs))"
    unfolding ms by (simp add: image_mset.compositionality comp_def)
  also have "\<dots> = mset (map (\<lambda>p. Some (JInt (int (fst p)))) (enumerate 0 ?items))"
    using collected_batch_ids[OF l2] by simp
  also have "map (\<lambda>p. Some (JInt (int (fst p)))) (enumerate 0 ?items)
             = map (\<lambda>p. Some (JInt (int p))) (map fst (enumerate 0 ?items))"
    by (simp only: map_map comp_def)
  also have "map fst (enumerate 0 ?items) = [0..<length ?items]"
    by (simp add: map_fst_enumerate)
  finally show ?thesis using pb len tp by simp
qed

theorem process_batch_one_result_per_item_witness:
  "valid_completion (\<lambda>i. rev) \<and>
   (\<exists>resp w'. process_batch test_env cpu_device (\<lambda>i. rev) test_batch world0 = (Inr resp, w')
       \<and> length (batch_results resp) = 2
       \<and> total_processed resp = 2
       \<and> mset (map (\<lambda>r. r ''batch_id'') (batch_results resp))
         = {#Some (JInt 0), Some (JInt 1)#})"
proof -
  have len: "length (req_batch test_batch) = 2"
    by (simp add: test_batch_def)
  have upt: "[0..<2::nat] = [0, 1]"
    by (simp add: numeral_2_eq_2)
  from process_batch_one_result_per_item[OF valid_rev, of test_env cpu_device test_batch world0]
  obtain resp w' where a: "process_batch test_env cpu_device (\<lambda>i. rev) test_batch world0 = (Inr resp, w')"
    and b: "length (batch_results resp) = length (req_batch test_batch)"
    and c: "total_processed resp = int (length (req_batch test_batch))"
    and d: "mset (map (\<lambda>r. r ''batch_id'') (batch_results resp))
             = mset (map (\<lambda>p. Some (JInt (int p))) [0..<length (req_batch test_batch)])"
    by blast
  have b': "length (batch_results resp) = 2" using b len by simp
  have c': "total_processed resp = 2" using c len by simp
  have d': "mset (map (\<lambda>r. r ''batch_id'') (batch_results resp)) = {#Some (JInt 0), Some (JInt 1)#}"
    unfolding d len upt by simp
  from a b' c' d' valid_rev show ?thesis by blast
qed

text \<open>
  C9. Every worker of \<^verbatim>\<open>process_batch\<close> is given the item with \<^verbatim>\<open>job_id\<close> replaced by
  the job id of the batch and \<^verbatim>\<open>batch_id\<close> replaced by the position of the item in the
  whole batch; the result entries are, in some order, what these workers returned (or the
  status-500 entry for a worker that raised), and each of them carries the job id of the
  batch and a position of the batch as its \<^verbatim>\<open>batch_id\<close>.
\<close>

theorem process_batch_positional_ids:
  assumes "valid_completion ac"
  shows "\<exists>resp w' outs. process_batch E D ac batch_data w = (Inr resp, w')
           \<and> list_all2 (\<lambda>p out. \<exists>wp. out = fst (process_single_image E
                   ((snd p)(''job_id'' \<mapsto> job_of batch_data, ''batch_id'' \<mapsto> JInt (int (fst p)))) wp))
               (enumerate 0 (req_batch batch_data)) outs
           \<and> mset (batch_results resp)
             = mset (map (collect (job_of batch_data) 0) (zip (enumerate 0 (req_batch batch_data)) outs))
           \<and> (\<forall>r \<in> set (batch_results resp).
                 r ''job_id'' = Some (job_of batch_data) \<and>
                 (\<exists>p < length (req_batch batch_data). r ''batch_id'' = Some (JInt (int p))))"
proof -
  let ?items = "req_batch batch_data"
  let ?job = "job_of batch_data"
  from process_batch_outcomes[OF assms, of E D batch_data w]
  obtain resp w' outs where pb: "process_batch E D ac batch_data w = (Inr resp, w')"
    and l2: "list_all2 (\<lambda>p out. \<exists>wp. out = fst (process_single_image E (submitted ?job 0 p) wp))
               (enumerate 0 ?items) outs"
    and ms: "mset (batch_results resp) = mset (map (collect ?job 0) (zip (enumerate 0 ?items) outs))"
    by blast
  have sub: "\<And>p. submitted ?job 0 p = (snd p)(''job_id'' \<mapsto> ?job, ''batch_id'' \<mapsto> JInt (int (fst p)))"
    by (simp add: submitted_def split_def)
  have ids: "r ''job_id'' = Some ?job \<and> (\<exists>p < length ?items. r ''batch_id'' = Some (JInt (int p)))"
    if "r \<in> set (batch_results resp)" for r
  proof -
    from that have "r \<in> set (map (collect ?job 0) (zip (enumerate 0 ?items) outs))"
      using ms by (metis set_mset_mset)
    from collected_entries[OF l2 this]
    show ?thesis by (auto simp: map_fst_enumerate simp flip: set_map)
  qed
  from l2 have "list_all2 (\<lambda>p out. \<exists>wp. out = fst (process_single_image E
                   ((snd p)(''job_id'' \<mapsto> ?job, ''batch_id'' \<mapsto> JInt (int (fst p)))) wp))
               (enumerate 0 ?items) outs"
    by (simp add: sub)
  then show ?thesis using pb ms ids by blast
qed

theorem process_batch_positional_ids_witness:
  "valid_completion (\<lambda>i. rev) \<and>
   item_a ''batch_id'' = Some (JStr ''7'') \<and>
   (\<exists>resp w'. process_batch test_env gpu_device (\<lambda>i. rev) test_batch world0 = (Inr resp, w')
       \<and> (\<forall>r \<in> set (batch_results resp).
             r ''job_id'' = Some (JStr ''job7'') \<and>
             (r ''batch_id'' = Some (JInt 0) \<or> r ''batch_id'' = Some (JInt 1))))"
proof -
  have len: "length (req_batch test_batch) = 2"
    by (simp add: test_batch_def)
  have job: "job_of test_batch = JStr ''job7''"
    by (simp add: job_of_def test_batch_def)
  have two: "p = 0 \<or> p = 1" if "p < 2" for p :: nat
    using that by auto
  from process_batch_positional_ids[OF valid_rev, of test_env gpu_device test_batch world0]
  obtain resp w' where a: "process_batch test_env gpu_device (\<lambda>i. rev) test_batch world0 = (Inr resp, w')"
    and b: "\<forall>r \<in> set (batch_results resp).
              r ''job_id'' = Some (job_of test_batch) \<and>
              (\<exists>p < length (req_batch test_batch). r ''batch_id'' = Some (JInt (int p)))"
    by blast
  have c: "r ''job_id'' = Some (JStr ''job7'') \<and>
           (r ''batch_id'' = Some (JInt 0) \<or> r ''batch_id'' = Some (JInt 1))"
    if "r \<in> set (batch_results resp)" for r
  proof -
    from b that obtain p where "r ''job_id'' = Some (JStr ''job7'')" "p < 2"
      "r ''batch_id'' = Some (JInt (int p))"
      unfolding len job by blast
    then show ?thesis using two[of p] by auto
  qed
  have "item_a ''batch_id'' = Some (JStr ''7'')"
    by (simp add: item_a_def)
  with a c valid_rev show ?thesis by blast
qed

section \<open>SwinIR batches\<close>

lemma swinir_process_stages_outcome:
  "swinir_process_stages E a b j k w = entry_of j k (swinir_stage_outcome E a b w)"
  unfolding swinir_process_stages_def swinir_stage_outcome_def Let_def
  apply (simp only: prod.case_distrib[of "entry_of j k"] sum.case_distrib[of "entry_of j k"]
      option.case_distrib[of "entry_of j k"] if_distrib[of "entry_of j k"] entry_of_simps)
  apply (simp only: entry_of_def)
  done

lemma swinir_process_single_image_Inr:
  assumes "swinir_process_single_image E d w = (Inr r, w')"
  shows "\<exists>a b j k. d ''input_file_path'' = Some (JStr a) \<and> d ''output_file_path'' = Some (JStr b)
           \<and> d ''job_id'' = Some j \<and> d ''batch_id'' = Some k
           \<and> (r, w') = entry_of j k (swinir_stage_outcome E a b w)"
  using assms
  by (auto simp: swinir_process_single_image_def swinir_process_stages_outcome
      split: option.splits jval.splits prod.splits)

lemma swinir_process_single_image_wellformed:
  assumes "d ''input_file_path'' = Some (JStr a)" "d ''output_file_path'' = Some (JStr b)"
    "d ''job_id'' = Some j" "d ''batch_id'' = Some k"
  shows "swinir_process_single_image E d w =
           (Inr (fst (entry_of j k (swinir_stage_outcome E a b w))),
            snd (entry_of j k (swinir_stage_outcome E a b w)))"
  using assms
  by (simp add: swinir_process_single_image_def swinir_process_stages_outcome split: prod.splits)

lemma swinir_run_workers_outs:
  "list_all2 (\<lambda>x out. \<exists>wp. out = fst (swinir_process_single_image E x wp)) xs
     (fst (swinir_run_workers E xs w))"
proof (induction xs arbitrary: w)
  case Nil
  then show ?case by simp
next
  case (Cons x xs)
  obtain r w1 where r: "swinir_process_single_image E x w = (r, w1)"
    by (cases "swinir_process_single_image E x w")
  obtain rs w2 where rs: "swinir_run_workers E xs w1 = (rs, w2)"
    by (cases "swinir_run_workers E xs w1")
  have "\<exists>wp. r = fst (swinir_process_single_image E x wp)" using r by (metis fst_conv)
  moreover have "list_all2 (\<lambda>x out. \<exists>wp. out = fst (swinir_process_single_image E x wp)) xs rs"
    using Cons.IH[of w1] rs by simp
  ultimately show ?case using r rs by auto
qed

lemma swinir_collect_worker:
  assumes "out = fst (swinir_process_single_image E item wp)"
  shows "swinir_collect (item, out) ''job_id''
           = Some (case item ''job_id'' of None \<Rightarrow> JStr ''unknown'' | Some v \<Rightarrow> v) \<and>
         swinir_collect (item, out) ''batch_id''
           = Some (case item ''batch_id'' of None \<Rightarrow> JStr ''unknown'' | Some v \<Rightarrow> v) \<and>
         (swinir_collect (item, out) ''status'' = Some (JInt 200) \<or>
          swinir_collect (item, out) ''status'' = Some (JInt 500) \<and>
          (\<exists>m. swinir_collect (item, out) ''error'' = Some (JStr m)))"
proof (cases out)
  case (Inl e)
  then show ?thesis by (simp add: swinir_collect_def)
next
  case (Inr r)
  obtain w' where "swinir_process_single_image E item wp = (Inr r, w')"
    using assms Inr by (cases "swinir_process_single_image E item wp") simp
  from swinir_process_single_image_Inr[OF this]
  obtain a b j k where jk: "item ''job_id'' = Some j" "item ''batch_id'' = Some k"
    and r: "(r, w') = entry_of j k (swinir_stage_outcome E a b wp)"
    by blast
  from r have "r = fst (entry_of j k (swinir_stage_outcome E a b wp))"
    by (metis fst_conv)
  then show ?thesis using Inr jk entry_of_fields[of j k]
    by (simp add: swinir_collect_def)
qed

lemma swinir_predict_fn_single:
  "swinir_predict_fn E ac [x] w =
     (case swinir_process_single_image E x w of
        (Inl e, w') \<Rightarrow> (Inl e, w')
      | (Inr r, w') \<Rightarrow> (Inr (Single r), w'))"
  by (simp add: swinir_predict_fn_def)

lemma swinir_predict_fn_many:
  assumes "2 \<le> length xs"
  shows "swinir_predict_fn E ac xs w =
           (Inr (Many (map swinir_collect (ac (zip xs (fst (swinir_run_workers E xs w)))))),
            snd (swinir_run_workers E xs w))"
proof -
  from assms have "(length xs = 1) = False" "(min (length xs) 4 = 0) = False" by auto
  then show ?thesis unfolding swinir_predict_fn_def Let_def by (simp only: if_False)
qed

lemma swinir_predict_fn_outcomes:
  assumes "2 \<le> length xs" "swinir_valid_completion ac"
  shows "\<exists>rs w' outs. swinir_predict_fn E ac xs w = (Inr (Many rs), w')
           \<and> list_all2 (\<lambda>x out. \<exists>wp. out = fst (swinir_process_single_image E x wp)) xs outs
           \<and> mset rs = mset (map swinir_collect (zip xs outs))"
proof -
  let ?outs = "fst (swinir_run_workers E xs w)"
  have "mset (map swinir_collect (ac (zip xs ?outs)))
        = image_mset swinir_collect (mset (ac (zip xs ?outs)))" by simp
  also have "\<dots> = image_mset swinir_collect (mset (zip xs ?outs))"
    using assms(2) by (simp add: swinir_valid_completion_def)
  finally have "mset (map swinir_collect (ac (zip xs ?outs))) = mset (map swinir_collect (zip xs ?outs))"
    by simp
  then show ?thesis
    using swinir_predict_fn_many[OF assms(1), of E ac w] swinir_run_workers_outs[of E xs w]
    by blast
qed

lemma swinir_valid_rev: "swinir_valid_completion rev"
  by (simp add: swinir_valid_completion_def)

text \<open>
  C10. For a batch of exactly one item the SwinIR \<^verbatim>\<open>predict_fn\<close> hands back what
  \<^verbatim>\<open>process_single_image\<close> returns, a bare dictionary (for an item with the four
  required keys it does return one); for a batch of two or more items it returns a list,
  which has one entry per item.
\<close>

theorem swinir_predict_fn_shape:
  "swinir_predict_fn E ac [x] w =
     (case swinir_process_single_image E x w of
        (Inl e, w') \<Rightarrow> (Inl e, w')
      | (Inr r, w') \<Rightarrow> (Inr (Single r), w')) \<and>
   (x ''input_file_path'' = Some (JStr a) \<and> x ''output_file_path'' = Some (JStr b) \<and>
    x ''job_id'' = Some j \<and> x ''batch_id'' = Some k \<longrightarrow>
      (\<exists>r w'. swinir_predict_fn E ac [x] w = (Inr (Single r), w'))) \<and>
   (2 \<le> length xs \<longrightarrow>
      (\<exists>rs w'. swinir_predict_fn E ac xs w = (Inr (Many rs), w') \<and>
         (swinir_valid_completion ac \<longrightarrow> length rs = length xs)))"
proof (intro conjI impI)
  show "swinir_predict_fn E ac [x] w =
     (case swinir_process_single_image E x w of
        (Inl e, w') \<Rightarrow> (Inl e, w')
      | (Inr r, w') \<Rightarrow> (Inr (Single r), w'))"
    by (rule swinir_predict_fn_single)
next
  assume "x ''input_file_path'' = Some (JStr a) \<and> x ''output_file_path'' = Some (JStr b) \<and>
    x ''job_id'' = Some j \<and> x ''batch_id'' = Some k"
  then have "swinir_process_single_image E x w =
           (Inr (fst (entry_of j k (swinir_stage_outcome E a b w))),
            snd (entry_of j k (swinir_stage_outcome E a b w)))"
    by (intro swinir_process_single_image_wellformed) simp_all
  then show "\<exists>r w'. swinir_predict_fn E ac [x] w = (Inr (Single r), w')"
    by (simp add: swinir_predict_fn_single)
next
  assume len: "2 \<le> length xs"
  let ?rs = "map swinir_collect (ac (zip xs (fst (swinir_run_workers E xs w))))"
  have "swinir_valid_completion ac \<longrightarrow> length ?rs = length xs"
  proof
    assume "swinir_valid_completion ac"
    then have "mset (ac (zip xs (fst (swinir_run_workers E xs w))))
               = mset (zip xs (fst (swinir_run_workers E xs w)))"
      by (simp add: swinir_valid_completion_def)
    then have "length (ac (zip xs (fst (swinir_run_workers E xs w))))
               = length (zip xs (fst (swinir_run_workers E xs w)))"
      by (rule mset_eq_length)
    moreover have "length (fst (swinir_run_workers E xs w)) = length xs"
      using list_all2_lengthD[OF swinir_run_workers_outs[of E xs w]] by simp
    ultimately show "length ?rs = length xs" by simp
  qed
  then show "\<exists>rs w'. swinir_predict_fn E ac xs w = (Inr (Many rs), w') \<and>
         (swinir_valid_completion ac \<longrightarrow> length rs = length xs)"
    using swinir_predict_fn_many[OF len, of E ac w] by blast
qed

theorem swinir_predict_fn_shape_witness:
  "item_a ''input_file_path'' = Some (JStr ''a.png'') \<and>
   item_a ''output_file_path'' = Some (JStr ''out_a.png'') \<and>
   item_a ''job_id'' = Some (JStr ''j1'') \<and> item_a ''batch_id'' = Some (JStr ''7'') \<and>
   (\<exists>r w'. swinir_predict_fn test_env rev [item_a] world0 = (Inr (Single r), w')) \<and>
   2 \<le> length [item_bad, item_a] \<and> swinir_valid_completion rev \<and>
   (\<exists>rs w'. swinir_predict_fn test_env rev [item_bad, item_a] world0 = (Inr (Many rs), w') \<and>
      length rs = 2)"
proof -
  have keys: "item_a ''input_file_path'' = Some (JStr ''a.png'') \<and>
      item_a ''output_file_path'' = Some (JStr ''out_a.png'') \<and>
      item_a ''job_id'' = Some (JStr ''j1'') \<and> item_a ''batch_id'' = Some (JStr ''7'')"
    by (simp add: item_a_def)
  have two: "2 \<le> length [item_bad, item_a]" by simp
  from swinir_predict_fn_shape[of test_env rev item_a world0 "''a.png''" "''out_a.png''"
      "JStr ''j1''" "JStr ''7''" "[item_bad, item_a]"] keys
  have single: "\<exists>r w'. swinir_predict_fn test_env rev [item_a] world0 = (Inr (Single r), w')"
    by blast
  from swinir_predict_fn_shape[of test_env rev item_a world0 "''a.png''" "''out_a.png''"
      "JStr ''j1''" "JStr ''7''" "[item_bad, item_a]"] two swinir_valid_rev
  obtain rs w' where "swinir_predict_fn test_env rev [item_bad, item_a] world0 = (Inr (Many rs), w')"
    and "length rs = length [item_bad, item_a]"
    by blast
  then have "\<exists>rs w'. swinir_predict_fn test_env rev [item_bad, item_a] world0 = (Inr (Many rs), w') \<and>
      length rs = 2" by auto
  with keys two single swinir_valid_rev show ?thesis by blast
qed

section \<open>Failure isolation\<close>

lemma failure_on_stage_error:
  assumes "d ''input_file_path'' = Some (JStr a)" "d ''output_file_path'' = Some (JStr b)"
    "d ''job_id'' = Some j" "d ''batch_id'' = Some k"
    and "stage_outcome E d a b w = (Inl e, w1)"
  shows "process_single_image E d w = (Inr (failure e j k), w1)"
  using process_single_image_wellformed[OF assms(1-4), of E w] assms(5)
  by (simp add: entry_of_simps)

lemma swinir_failure_on_stage_error:
  assumes "d ''input_file_path'' = Some (JStr a)" "d ''output_file_path'' = Some (JStr b)"
    "d ''job_id'' = Some j" "d ''batch_id'' = Some k"
    and "swinir_stage_outcome E a b w = (Inl e, w1)"
  shows "swinir_process_single_image E d w = (Inr (failure e j k), w1)"
  using swinir_process_single_image_wellformed[OF assms(1-4), of E w] assms(5)
  by (simp add: entry_of_simps)

lemma process_batch_isolation:
  assumes "valid_completion ac"
  shows "\<exists>resp w' outs. process_batch E D ac batch_data w = (Inr resp, w')
           \<and> resp_status resp = 200
           \<and> length (batch_results resp) = length (req_batch batch_data)
           \<and> list_all2 (\<lambda>p out. \<exists>wp. out = fst (process_single_image E
                   (submitted (job_of batch_data) 0 p) wp))
               (enumerate 0 (req_batch batch_data)) outs
           \<and> mset (batch_results resp)
             = mset (map (collect (job_of batch_data) 0) (zip (enumerate 0 (req_batch batch_data)) outs))
           \<and> (\<forall>r \<in> set (batch_results resp).
                 r ''job_id'' = Some (job_of batch_data) \<and>
                 (\<exists>p < length (req_batch batch_data). r ''batch_id'' = Some (JInt (int p))) \<and>
                 (r ''status'' = Some (JInt 200) \<or>
                  r ''status'' = Some (JInt 500) \<and> (\<exists>m. r ''error'' = Some (JStr m))))"
proof -
  let ?items = "req_batch batch_data"
  let ?job = "job_of batch_data"
  from process_batch_outcomes[OF assms, of E D batch_data w]
  obtain resp w' outs where pb: "process_batch E D ac batch_data w = (Inr resp, w')"
    and st: "resp_status resp = 200"
    and l2: "list_all2 (\<lambda>p out. \<exists>wp. out = fst (process_single_image E (submitted ?job 0 p) wp))
               (enumerate 0 ?items) outs"
    and ms: "mset (batch_results resp) = mset (map (collect ?job 0) (zip (enumerate 0 ?items) outs))"
    by blast
  have "length outs = length ?items"
    using list_all2_lengthD[OF l2] by simp
  moreover have "size (mset (batch_results resp)) = length (zip (enumerate 0 ?items) outs)"
    unfolding ms by simp
  ultimately have len: "length (batch_results resp) = length ?items" by simp
  have ids: "r ''job_id'' = Some ?job \<and> (\<exists>p < length ?items. r ''batch_id'' = Some (JInt (int p))) \<and>
             (r ''status'' = Some (JInt 200) \<or>
              r ''status'' = Some (JInt 500) \<and> (\<exists>m. r ''error'' = Some (JStr m)))"
    if "r \<in> set (batch_results resp)" for r
  proof -
    from that have "r \<in> set (map (collect ?job 0) (zip (enumerate 0 ?items) outs))"
      using ms by (metis set_mset_mset)
    from collected_entries[OF l2 this]
    show ?thesis by (auto simp: map_fst_enumerate simp flip: set_map)
  qed
  from pb st len l2 ms ids show ?thesis by blast
qed

lemma swinir_predict_fn_isolation:
  assumes "2 \<le> length xs" "swinir_valid_completion ac"
  shows "\<exists>rs w' outs. swinir_predict_fn E ac xs w = (Inr (Many rs), w')
           \<and> length rs = length xs
           \<and> list_all2 (\<lambda>x out. \<exists>wp. out = fst (swinir_process_single_image E x wp)) xs outs
           \<and> mset rs = mset (map swinir_collect (zip xs outs))
           \<and> (\<forall>r \<in> set rs.
                 (\<exists>v. r ''job_id'' = Some v) \<and> (\<exists>v. r ''batch_id'' = Some v) \<and>
                 (r ''status'' = Some (JInt 200) \<or>
                  r ''status'' = Some (JInt 500) \<and> (\<exists>m. r ''error'' = Some (JStr m))))"
proof -
  from swinir_predict_fn_outcomes[OF assms, of E w]
  obtain rs w' outs where pf: "swinir_predict_fn E ac xs w = (Inr (Many rs), w')"
    and l2: "list_all2 (\<lambda>x out. \<exists>wp. out = fst (swinir_process_single_image E x wp)) xs outs"
    and ms: "mset rs = mset (map swinir_collect (zip xs outs))"
    by blast
  have "length outs = length xs"
    using list_all2_lengthD[OF l2] by simp
  moreover have "size (mset rs) = length (zip xs outs)"
    unfolding ms by simp
  ultimately have len: "length rs = length xs" by simp
  have ent: "(\<exists>v. r ''job_id'' = Some v) \<and> (\<exists>v. r ''batch_id'' = Some v) \<and>
             (r ''status'' = Some (JInt 200) \<or>
              r ''status'' = Some (JInt 500) \<and> (\<exists>m. r ''error'' = Some (JStr m)))"
    if "r \<in> set rs" for r
  proof -
    from that have "r \<in> set (map swinir_collect (zip xs outs))"
      using ms by (metis set_mset_mset)
    then obtain item out where f: "(item, out) \<in> set (zip xs outs)"
      and r: "r = swinir_collect (item, out)" by auto
    from f l2 obtain wp where "out = fst (swinir_process_single_image E item wp)"
      by (auto simp: list_all2_iff)
    from swinir_collect_worker[OF this] show ?thesis unfolding r by blast
  qed
  from pf len l2 ms ent show ?thesis by blast
qed

text \<open>
  C2. The claim as stated fails for the SwinIR server: its batch response is the bare
  list of entries and has no status of its own.
\<close>

theorem swinir_batch_has_no_status:
  "map_sum id response_status (fst (swinir_predict_fn test_env rev [item_bad, item_a] world0))
     = Inr None"
  by (simp add: swinir_predict_fn_def Let_def)

text \<open>
  C2, amended. In both servers an item for which a stage (download, decode, inference,
  encode, upload) raises \<open>e\<close> yields the status-500 dictionary with \<^verbatim>\<open>str(e)\<close> and its
  job and batch identifiers. The Real-ESRGAN \<^verbatim>\<open>process_batch\<close> returns a response with
  status 200 whose entries are, in some order, exactly the outcomes of the workers of all
  items, each with the job id of the batch, its position, and status 200 or status 500
  with an error text. The SwinIR \<^verbatim>\<open>predict_fn\<close> returns, for two or more items, the list
  of the outcomes of the workers of all items, each with a job id, a batch id and status
  200 or status 500 with an error text.
\<close>

theorem batch_failure_isolation:
  "(d ''input_file_path'' = Some (JStr a) \<and> d ''output_file_path'' = Some (JStr b) \<and>
    d ''job_id'' = Some j \<and> d ''batch_id'' = Some k \<and>
    stage_outcome E d a b w = (Inl e, w1) \<longrightarrow>
      process_single_image E d w =
        (Inr [''status'' \<mapsto> JInt 500, ''error'' \<mapsto> JStr (str e),
              ''job_id'' \<mapsto> j, ''batch_id'' \<mapsto> k], w1)) \<and>
   (valid_completion ac \<longrightarrow>
      (\<exists>resp w' outs. process_batch E D ac batch_data w = (Inr resp, w')
           \<and> resp_status resp = 200
           \<and> length (batch_results resp) = length (req_batch batch_data)
           \<and> list_all2 (\<lambda>p out. \<exists>wp. out = fst (process_single_image E
                   (submitted (job_of batch_data) 0 p) wp))
               (enumerate 0 (req_batch batch_data)) outs
           \<and> mset (batch_results resp)
             = mset (map (collect (job_of batch_data) 0) (zip (enumerate 0 (req_batch batch_data)) outs))
           \<and> (\<forall>r \<in> set (batch_results resp).
                 r ''job_id'' = Some (job_of batch_data) \<and>
                 (\<exists>p < length (req_batch batch_data). r ''batch_id'' = Some (JInt (int p))) \<and>
                 (r ''status'' = Some (JInt 200) \<or>
                  r ''status'' = Some (JInt 500) \<and> (\<exists>m. r ''error'' = Some (JStr m)))))) \<and>
   (d ''input_file_path'' = Some (JStr a) \<and> d ''output_file_path'' = Some (JStr b) \<and>
    d ''job_id'' = Some j \<and> d ''batch_id'' = Some k \<and>
    swinir_stage_outcome E a b w = (Inl e, w1) \<longrightarrow>
      swinir_process_single_image E d w =
        (Inr [''status'' \<mapsto> JInt 500, ''error'' \<mapsto> JStr (str e),
              ''job_id'' \<mapsto> j, ''batch_id'' \<mapsto> k], w1)) \<and>
   (2 \<le> length xs \<and> swinir_valid_completion sac \<longrightarrow>
      (\<exists>rs w' outs. swinir_predict_fn E sac xs w = (Inr (Many rs), w')
           \<and> length rs = length xs
           \<and> list_all2 (\<lambda>x out. \<exists>wp. out = fst (swinir_process_single_image E x wp)) xs outs
           \<and> mset rs = mset (map swinir_collect (zip xs outs))
           \<and> (\<forall>r \<in> set rs.
                 (\<exists>v. r ''job_id'' = Some v) \<and> (\<exists>v. r ''batch_id'' = Some v) \<and>
                 (r ''status'' = Some (JInt 200) \<or>
                  r ''status'' = Some (JInt 500) \<and> (\<exists>m. r ''error'' = Some (JStr m))))))"
proof (intro conjI impI)
  assume "d ''input_file_path'' = Some (JStr a) \<and> d ''output_file_path'' = Some (JStr b) \<and>
    d ''job_id'' = Some j \<and> d ''batch_id'' = Some k \<and> stage_outcome E d a b w = (Inl e, w1)"
  then have "process_single_image E d w = (Inr (failure e j k), w1)"
    by (blast intro: failure_on_stage_error)
  then show "process_single_image E d w =
        (Inr [''status'' \<mapsto> JInt 500, ''error'' \<mapsto> JStr (str e),
              ''job_id'' \<mapsto> j, ''batch_id'' \<mapsto> k], w1)"
    by (simp only: failure_def)
next
  assume "valid_completion ac"
  then show "\<exists>resp w' outs. process_batch E D ac batch_data w = (Inr resp, w')
           \<and> resp_status resp = 200
           \<and> length (batch_results resp) = length (req_batch batch_data)
           \<and> list_all2 (\<lambda>p out. \<exists>wp. out = fst (process_single_image E
                   (submitted (job_of batch_data) 0 p) wp))
               (enumerate 0 (req_batch batch_data)) outs
           \<and> mset (batch_results resp)
             = mset (map (collect (job_of batch_data) 0) (zip (enumerate 0 (req_batch batch_data)) outs))
           \<and> (\<forall>r \<in> set (batch_results resp).
                 r ''job_id'' = Some (job_of batch_data) \<and>
                 (\<exists>p < length (req_batch batch_data). r ''batch_id'' = Some (JInt (int p))) \<and>
                 (r ''status'' = Some (JInt 200) \<or>
                  r ''status'' = Some (JInt 500) \<and> (\<exists>m. r ''error'' = Some (JStr m))))"
    by (rule process_batch_isolation)
next
  assume "d ''input_file_path'' = Some (JStr a) \<and> d ''output_file_path'' = Some (JStr b) \<and>
    d ''job_id'' = Some j \<and> d ''batch_id'' = Some k \<and> swinir_stage_outcome E a b w = (Inl e, w1)"
  then have "swinir_process_single_image E d w = (Inr (failure e j k), w1)"
    by (blast intro: swinir_failure_on_stage_error)
  then show "swinir_process_single_image E d w =
        (Inr [''status'' \<mapsto> JInt 500, ''error'' \<mapsto> JStr (str e),
              ''job_id'' \<mapsto> j, ''batch_id'' \<mapsto> k], w1)"
    by (simp only: failure_def)
next
  assume "2 \<le> length xs \<and> swinir_valid_completion sac"
  then show "\<exists>rs w' outs. swinir_predict_fn E sac xs w = (Inr (Many rs), w')
           \<and> length rs = length xs
           \<and> list_all2 (\<lambda>x out. \<exists>wp. out = fst (swinir_process_single_image E x wp)) xs outs
           \<and> mset rs = mset (map swinir_collect (zip xs outs))
           \<and> (\<forall>r \<in> set rs.
                 (\<exists>v. r ''job_id'' = Some v) \<and> (\<exists>v. r ''batch_id'' = Some v) \<and>
                 (r ''status'' = Some (JInt 200) \<or>
                  r ''status'' = Some (JInt 500) \<and> (\<exists>m. r ''error'' = Some (JStr m))))"
    by (blast intro: swinir_predict_fn_isolation)
qed

theorem batch_failure_isolation_witness:
  "stage_outcome test_env item_bad ''bad.png'' ''out_bad.png'' world0
     = (Inl (ValueError ''Failed to read image from bad.png''), world0) \<and>
   process_single_image test_env item_bad world0 =
     (Inr [''status'' \<mapsto> JInt 500, ''error'' \<mapsto> JStr ''Failed to read image from bad.png'',
           ''job_id'' \<mapsto> JStr ''j2'', ''batch_id'' \<mapsto> JStr ''8''], world0) \<and>
   valid_completion (\<lambda>i. rev) \<and>
   (\<exists>resp w'. process_batch test_env cpu_device (\<lambda>i. rev) test_batch world0 = (Inr resp, w')
       \<and> resp_status resp = 200 \<and> length (batch_results resp) = 2) \<and>
   swinir_stage_outcome test_env ''bad.png'' ''out_bad.png'' world0
     = (Inl (ValueError ''Failed to read image from bad.png''), world0) \<and>
   swinir_process_single_image test_env item_bad world0 =
     (Inr [''status'' \<mapsto> JInt 500, ''error'' \<mapsto> JStr ''Failed to read image from bad.png'',
           ''job_id'' \<mapsto> JStr ''j2'', ''batch_id'' \<mapsto> JStr ''8''], world0) \<and>
   2 \<le> length [item_bad, item_a] \<and> swinir_valid_completion rev \<and>
   (\<exists>rs w'. swinir_predict_fn test_env rev [item_bad, item_a] world0 = (Inr (Many rs), w')
       \<and> length rs = 2)"
proof -
  let ?e = "ValueError ''Failed to read image from bad.png''"
  note inst = batch_failure_isolation[of item_bad "''bad.png''" "''out_bad.png''" "JStr ''j2''"
      "JStr ''8''" test_env world0 ?e world0 "\<lambda>i. rev" cpu_device test_batch
      "[item_bad, item_a]" rev]
  note i1 = inst[THEN conjunct1]
  note i2 = inst[THEN conjunct2, THEN conjunct1]
  note i3 = inst[THEN conjunct2, THEN conjunct2, THEN conjunct1]
  note i4 = inst[THEN conjunct2, THEN conjunct2, THEN conjunct2]
  have keys: "item_bad ''input_file_path'' = Some (JStr ''bad.png'')"
      "item_bad ''output_file_path'' = Some (JStr ''out_bad.png'')"
      "item_bad ''job_id'' = Some (JStr ''j2'')" "item_bad ''batch_id'' = Some (JStr ''8'')"
    by (simp_all add: item_bad_def)
  have st: "stage_outcome test_env item_bad ''bad.png'' ''out_bad.png'' world0 = (Inl ?e, world0)"
    by (simp add: stage_outcome_def startswith_def basename_def splitext_def Let_def
        IMAGE_CACHE_DIR_def test_env_def world0_def)
  have sst: "swinir_stage_outcome test_env ''bad.png'' ''out_bad.png'' world0 = (Inl ?e, world0)"
    by (simp add: swinir_stage_outcome_def startswith_def basename_def splitext_def Let_def
        IMAGE_CACHE_DIR_def test_env_def world0_def)
  have len: "length (req_batch test_batch) = 2"
    by (simp add: test_batch_def)
  have two: "2 \<le> length [item_bad, item_a]" by simp
  have a: "process_single_image test_env item_bad world0 =
     (Inr [''status'' \<mapsto> JInt 500, ''error'' \<mapsto> JStr (str ?e),
           ''job_id'' \<mapsto> JStr ''j2'', ''batch_id'' \<mapsto> JStr ''8''], world0)"
    by (rule i1[THEN mp]) (intro conjI keys st)
  have b: "swinir_process_single_image test_env item_bad world0 =
     (Inr [''status'' \<mapsto> JInt 500, ''error'' \<mapsto> JStr (str ?e),
           ''job_id'' \<mapsto> JStr ''j2'', ''batch_id'' \<mapsto> JStr ''8''], world0)"
    by (rule i3[THEN mp]) (intro conjI keys sst)
  have c: "\<exists>resp w'. process_batch test_env cpu_device (\<lambda>i. rev) test_batch world0 = (Inr resp, w')
       \<and> resp_status resp = 200 \<and> length (batch_results resp) = 2"
    using i2[THEN mp, OF valid_rev] unfolding len
    by (elim exE conjE) (intro exI conjI, assumption+)
  have d: "\<exists>rs w'. swinir_predict_fn test_env rev [item_bad, item_a] world0 = (Inr (Many rs), w')
       \<and> length rs = length [item_bad, item_a]"
    using i4[THEN mp, OF conjI, OF two swinir_valid_rev]
    by (elim exE conjE) (intro exI conjI, assumption+)
  then have d: "\<exists>rs w'. swinir_predict_fn test_env rev [item_bad, item_a] world0 = (Inr (Many rs), w')
       \<and> length rs = 2"
    by (simp add: numeral_2_eq_2)
  from a have a': "process_single_image test_env item_bad world0 =
     (Inr [''status'' \<mapsto> JInt 500, ''error'' \<mapsto> JStr ''Failed to read image from bad.png'',
           ''job_id'' \<mapsto> JStr ''j2'', ''batch_id'' \<mapsto> JStr ''8''], world0)"
    by simp
  from b have b': "swinir_process_single_image test_env item_bad world0 =
     (Inr [''status'' \<mapsto> JInt 500, ''error'' \<mapsto> JStr ''Failed to read image from bad.png'',
           ''job_id'' \<mapsto> JStr ''j2'', ''batch_id'' \<mapsto> JStr ''8''], world0)"
    by simp
  from st a' valid_rev c sst b' two swinir_valid_rev d show ?thesis
    by (intro conjI)
qed

section \<open>Tiling\<close>

lemma tile_for_spec: "tile_for input_data (h, w) = spec_tile_size (input_data ''tile_size'') h w"
  by (auto simp: tile_for_def spec_tile_size_def Let_def split: option.splits)

lemma s3_ops_invocations:
  "s3_head_object E b k w = (rn, w') \<Longrightarrow> invocations w' = invocations w"
  "s3_get_object E b k w = (ru, w') \<Longrightarrow> invocations w' = invocations w"
  "s3_download_file E b k lp m w = (ru, w') \<Longrightarrow> invocations w' = invocations w"
  "s3_upload_file E lp b k m w = (ru, w') \<Longrightarrow> invocations w' = invocations w"
  "download_regular E b k lp n w = (ru, w') \<Longrightarrow> invocations w' = invocations w"
  by (auto simp: s3_head_object_def s3_get_object_def s3_download_file_def s3_upload_file_def
      download_regular_def split: option.splits)

lemma download_compressed_invocations:
  "download_compressed E b k lp w = (r, w') \<Longrightarrow> invocations w' = invocations w"
  by (auto simp: download_compressed_def Let_def split: prod.splits sum.splits option.splits
      dest!: s3_ops_invocations)

lemma download_from_s3_invocations:
  "download_from_s3 E u lp w = (r, w') \<Longrightarrow> invocations w' = invocations w"
  by (auto simp: download_from_s3_def Let_def
      split: prod.splits sum.splits option.splits if_splits
      dest!: s3_ops_invocations download_compressed_invocations)

lemma upload_to_s3_invocations:
  "upload_to_s3 E lp u w = (r, w') \<Longrightarrow> invocations w' = invocations w"
  by (auto simp: upload_to_s3_def Let_def
      split: prod.splits sum.splits option.splits if_splits
      dest!: s3_ops_invocations)

lemma save_copy_invocations:
  "save_output E p w = (r, w') \<Longrightarrow> invocations w' = invocations w"
  "copy_output E s d w = (r, w') \<Longrightarrow> invocations w' = invocations w"
  by (auto simp: save_output_def copy_output_def split: sum.splits option.splits)

lemma run_model_invocations:
  assumes "flag_is input_data ''face_enhanced'' [''yes''] = Inr False"
    and "run_model E input_data (h, w) W = (r, W')"
  shows "invocations W' = invocations W \<or>
         (\<exists>name. invocations W'
            = invocations W @ [Enhance name (spec_tile_size (input_data ''tile_size'') h w)])"
  using assms
  by (auto simp: run_model_def Let_def tile_for_spec split: sum.splits option.splits)

lemma stage_outcome_invocations:
  assumes face: "flag_is d ''face_enhanced'' [''yes''] = Inr False"
    and so: "stage_outcome E d a b W = (r, W')"
  shows "invocations W' = invocations W \<or>
         (\<exists>name h w W1 path. imread E W1 path = Inr (Some (h, w)) \<and>
            invocations W' = invocations W @ [Enhance name (spec_tile_size (d ''tile_size'') h w)])"
proof -
  obtain imgname ext where se: "splitext (basename a) = (imgname, ext)"
    by (cases "splitext (basename a)")
  let ?lip = "IMAGE_CACHE_DIR @ ''/'' @ imgname @ ext"
  let ?lop = "IMAGE_CACHE_DIR @ ''/'' @ imgname @ ''_upscaled'' @ ext"
  obtain r1 W1 where f: "(if startswith a ''s3://'' then download_from_s3 E a ?lip W
                          else (Inr a, W)) = (r1, W1)"
    by (cases "if startswith a ''s3://'' then download_from_s3 E a ?lip W else (Inr a, W)")
  have i1: "invocations W1 = invocations W"
    using f by (auto split: if_splits dest: download_from_s3_invocations)
  have so': "(case r1 of
           Inl e \<Rightarrow> (Inl e, W1)
         | Inr path \<Rightarrow>
             (case imread E W1 path of
                Inl e \<Rightarrow> (Inl e, W1)
              | Inr None \<Rightarrow> (Inl (ValueError (''Failed to read image from '' @ path)), W1)
              | Inr (Some shape) \<Rightarrow>
                  (case run_model E d shape W1 of
                     (Inl e, w2) \<Rightarrow> (Inl e, w2)
                   | (Inr u, w2) \<Rightarrow>
                       (case save_output E ?lop w2 of
                          (Inl e, w3) \<Rightarrow> (Inl e, w3)
                        | (Inr u', w3) \<Rightarrow>
                            if startswith b ''s3://''
                            then upload_to_s3 E ?lop b w3
                            else if ?lop \<noteq> b
                            then (case copy_output E ?lop b w3 of
                                    (Inl e, w4) \<Rightarrow> (Inl e, w4)
                                  | (Inr u'', w4) \<Rightarrow> (Inr b, w4))
                            else (Inr b, w3))))) = (r, W')"
    using so unfolding stage_outcome_def Let_def se prod.case f .
  show ?thesis
  proof (cases r1)
    case (Inl e)
    then show ?thesis using so' i1 by simp
  next
    case (Inr path)
    note path = this
    show ?thesis
    proof (cases "imread E W1 path")
      case (Inl e)
      then show ?thesis using so' path i1 by simp
    next
      case (Inr shp)
      show ?thesis
      proof (cases shp)
        case None
        then show ?thesis using so' path Inr i1 by simp
      next
        case (Some shape)
        obtain h w where hw: "shape = (h, w)" by (cases shape)
        obtain r2 W2 where rm: "run_model E d (h, w) W1 = (r2, W2)"
          by (cases "run_model E d (h, w) W1")
        have rest: "invocations W' = invocations W2"
          using so' path Inr Some hw rm
          by (auto split: sum.splits prod.splits if_splits
              dest!: save_copy_invocations upload_to_s3_invocations)
        have im: "imread E W1 path = Inr (Some (h, w))"
          using Inr Some hw by simp
        from run_model_invocations[OF face rm]
        show ?thesis
        proof
          assume "invocations W2 = invocations W1"
          then show ?thesis using rest i1 by simp
        next
          assume "\<exists>name. invocations W2
            = invocations W1 @ [Enhance name (spec_tile_size (d ''tile_size'') h w)]"
          then obtain name where "invocations W'
            = invocations W @ [Enhance name (spec_tile_size (d ''tile_size'') h w)]"
            using rest i1 by auto
          with im show ?thesis by blast
        qed
      qed
    qed
  qed
qed

text \<open>
  C4. For a request without face enhancement the upsampler is called with the tile size
  of the policy: 1024 when \<^verbatim>\<open>tile_size\<close> is unset or 0 and the longer side of the decoded
  image exceeds 1500, otherwise the requested tile size, 0 when unset. The try block that
  calls the model does exactly this call; and \<^verbatim>\<open>process_single_image\<close> as a whole
  either calls no model or makes this one call, for the shape that \<^verbatim>\<open>cv2.imread\<close>
  returned.
\<close>

theorem tile_size_policy:
  assumes "flag_is input_data ''face_enhanced'' [''yes''] = Inr False"
  shows "(flag_is input_data ''is_anime'' [''yes'', ''true''] = Inr anime \<longrightarrow>
            invocations (snd (run_model E input_data (h, w) W)) =
              invocations W @
              [Enhance (if anime then ''realesr_gan_anime'' else ''realesr_gan'')
                 (spec_tile_size (input_data ''tile_size'') h w)]) \<and>
         (process_single_image E input_data W = (r, W') \<longrightarrow>
            invocations W' = invocations W \<or>
            (\<exists>name h w W1 path. imread E W1 path = Inr (Some (h, w)) \<and>
               invocations W' =
                 invocations W @ [Enhance name (spec_tile_size (input_data ''tile_size'') h w)]))"
proof (intro conjI impI)
  assume "flag_is input_data ''is_anime'' [''yes'', ''true''] = Inr anime"
  with assms show "invocations (snd (run_model E input_data (h, w) W)) =
              invocations W @
              [Enhance (if anime then ''realesr_gan_anime'' else ''realesr_gan'')
                 (spec_tile_size (input_data ''tile_size'') h w)]"
    by (auto simp: run_model_def Let_def tile_for_spec split: option.splits)
next
  assume p: "process_single_image E input_data W = (r, W')"
  show "invocations W' = invocations W \<or>
            (\<exists>name h w W1 path. imread E W1 path = Inr (Some (h, w)) \<and>
               invocations W' =
                 invocations W @ [Enhance name (spec_tile_size (input_data ''tile_size'') h w)])"
  proof (cases r)
    case (Inl e)
    then have "W' = W" using p
      by (auto simp: process_single_image_def split: option.splits jval.splits prod.splits)
    then show ?thesis by simp
  next
    case (Inr res)
    from process_single_image_Inr[OF p[unfolded Inr]]
    obtain a b j k where "(res, W') = entry_of j k (stage_outcome E input_data a b W)"
      by blast
    then have "stage_outcome E input_data a b W = (fst (stage_outcome E input_data a b W), W')"
      by (auto simp: entry_of_def split: prod.splits sum.splits)
    from stage_outcome_invocations[OF assms this] show ?thesis .
  qed
qed

theorem tile_size_policy_witness:
  "flag_is item_big ''face_enhanced'' [''yes''] = Inr False \<and>
   flag_is item_big ''is_anime'' [''yes'', ''true''] = Inr False \<and>
   invocations (snd (run_model test_env item_big (2000, 1000) world0))
     = [Enhance ''realesr_gan'' (JInt 1024)] \<and>
   invocations (snd (run_model test_env item_a (64, 64) world0))
     = [Enhance ''realesr_gan'' (JInt 0)] \<and>
   invocations (snd (process_single_image test_env item_big world0))
     = [Enhance ''realesr_gan'' (JInt 1024)] \<and>
   (invocations (snd (process_single_image test_env item_big world0)) = invocations world0 \<or>
    (\<exists>name h w W1 path. imread test_env W1 path = Inr (Some (h, w)) \<and>
       invocations (snd (process_single_image test_env item_big world0)) =
         invocations world0 @ [Enhance name (spec_tile_size (item_big ''tile_size'') h w)]))"
proof -
  have face: "flag_is item_big ''face_enhanced'' [''yes''] = Inr False"
    and anime: "flag_is item_big ''is_anime'' [''yes'', ''true''] = Inr False"
    by (simp_all add: flag_is_def item_big_def)
  have face_a: "flag_is item_a ''face_enhanced'' [''yes''] = Inr False"
    and anime_a: "flag_is item_a ''is_anime'' [''yes'', ''true''] = Inr False"
    by (simp_all add: flag_is_def item_a_def)
  have t_big: "spec_tile_size (item_big ''tile_size'') 2000 1000 = JInt 1024"
    by (simp add: spec_tile_size_def item_big_def)
  have t_a: "spec_tile_size (item_a ''tile_size'') 64 64 = JInt 0"
    by (simp add: spec_tile_size_def item_a_def)
  have w0: "invocations world0 = []" by (simp add: world0_def)
  from tile_size_policy[OF face, of False test_env 2000 1000 world0, THEN conjunct1] anime
  have a: "invocations (snd (run_model test_env item_big (2000, 1000) world0))
     = [Enhance ''realesr_gan'' (JInt 1024)]"
    unfolding t_big w0 by simp
  from tile_size_policy[OF face_a, of False test_env 64 64 world0, THEN conjunct1] anime_a
  have b: "invocations (snd (run_model test_env item_a (64, 64) world0))
     = [Enhance ''realesr_gan'' (JInt 0)]"
    unfolding t_a w0 by simp
  have c: "invocations (snd (process_single_image test_env item_big world0))
     = [Enhance ''realesr_gan'' (JInt 1024)]"
    by (simp add: process_single_image_def process_stages_def item_big_def startswith_def
      basename_def splitext_def IMAGE_CACHE_DIR_def test_env_def world0_def run_model_def
      flag_is_def tile_for_def save_output_def copy_output_def Let_def)
  have run: "process_single_image test_env item_big world0 =
      (fst (process_single_image test_env item_big world0),
       snd (process_single_image test_env item_big world0))"
    by simp
  from tile_size_policy[OF face, where E = test_env and W = world0
      and r = "fst (process_single_image test_env item_big world0)"
      and W' = "snd (process_single_image test_env item_big world0)", THEN conjunct2, THEN mp, OF run]
  have d: "invocations (snd (process_single_image test_env item_big world0)) = invocations world0 \<or>
    (\<exists>name h w W1 path. imread test_env W1 path = Inr (Some (h, w)) \<and>
       invocations (snd (process_single_image test_env item_big world0)) =
         invocations world0 @ [Enhance name (spec_tile_size (item_big ''tile_size'') h w)])" .
  from face anime a b c d show ?thesis by (intro conjI)
qed

section \<open>Memoized model loading\<close>

lemma map_of_filter_other:
  "k \<noteq> j \<Longrightarrow> map_of (filter (\<lambda>p. fst p \<noteq> j) xs) k = map_of xs k"
  by (induction xs) auto

lemma front_filter: "k \<noteq> j \<Longrightarrow> front k (filter (\<lambda>p. fst p \<noteq> j) xs) \<subseteq> front k xs"
  unfolding front_def by (induction xs) auto

lemma front_take: "front k (take n xs) \<subseteq> front k xs"
  unfolding front_def
proof (induction xs arbitrary: n)
  case Nil
  then show ?case by simp
next
  case (Cons x xs)
  then show ?case by (cases n) auto
qed

lemma map_of_take:
  "map_of xs k = Some h \<Longrightarrow> length (takeWhile (\<lambda>x. x \<noteq> k) (map fst xs)) < n
   \<Longrightarrow> map_of (take n xs) k = Some h"
proof (induction xs arbitrary: n)
  case Nil
  then show ?case by simp
next
  case (Cons x xs)
  then show ?case by (cases n) (auto split: if_splits)
qed

lemma front_length:
  "distinct (map fst xs) \<Longrightarrow> length (takeWhile (\<lambda>x. x \<noteq> k) (map fst xs)) = card (front k xs)"
  unfolding front_def by (simp add: distinct_card distinct_takeWhile)

lemma lru_cache_step:
  assumes d: "distinct (map fst cache)" and k: "map_of cache k = Some h" and jk: "j \<noteq> k"
    and c: "card (insert j (front k cache)) < m"
  shows "distinct (map fst (fst (snd (lru_cache m f j (cache, s))))) \<and>
         map_of (fst (snd (lru_cache m f j (cache, s)))) k = Some h \<and>
         front k (fst (snd (lru_cache m f j (cache, s)))) \<subseteq> insert j (front k cache)"
proof (cases "map_of cache j")
  case (Some v)
  have fr: "front k ((j, v) # filter (\<lambda>p. fst p \<noteq> j) cache) \<subseteq> insert j (front k cache)"
    using front_filter[of k j cache] jk by (auto simp: front_def)
  have "distinct (map fst (filter (\<lambda>p. fst p \<noteq> j) cache))"
    using d by (simp add: distinct_map_filter)
  moreover have "j \<notin> fst ` set (filter (\<lambda>p. fst p \<noteq> j) cache)" by auto
  ultimately show ?thesis using Some k jk fr
    by (simp add: lru_cache_def map_of_filter_other)
next
  case None
  then have jn: "j \<notin> fst ` set cache" by (simp add: map_of_eq_None_iff)
  show ?thesis
  proof (cases "f j s")
    case (Pair r s')
    show ?thesis
    proof (cases r)
      case (Inl e)
      then show ?thesis using None Pair d k by (auto simp: lru_cache_def)
    next
      case (Inr v)
      have dj: "distinct (map fst ((j, v) # cache))" using d jn by simp
      have fj: "front k ((j, v) # cache) = insert j (front k cache)"
        using jk by (simp add: front_def)
      have "length (takeWhile (\<lambda>x. x \<noteq> k) (map fst ((j, v) # cache))) < m"
        using front_length[OF dj, of k] fj c by simp
      moreover have "map_of ((j, v) # cache) k = Some h" using k jk by simp
      ultimately have mk: "map_of (take m ((j, v) # cache)) k = Some h"
        by (rule map_of_take[rotated])
      have "distinct (map fst (take m ((j, v) # cache)))"
        using dj by (simp only: take_map[symmetric] distinct_take)
      moreover have "front k (take m ((j, v) # cache)) \<subseteq> insert j (front k cache)"
        using front_take[of k m "(j, v) # cache"] fj by simp
      ultimately show ?thesis using None Pair Inr mk by (simp add: lru_cache_def)
    qed
  qed
qed

lemma lru_cache_retains:
  assumes "distinct (map fst cache)" "map_of cache k = Some h" "k \<notin> set ks"
    and "card (front k cache \<union> set ks) < m"
  shows "map_of (fst (resolve_all (lru_cache m f) ks (cache, s))) k = Some h"
  using assms
proof (induction ks arbitrary: cache s)
  case Nil
  then show ?case by simp
next
  case (Cons j ks)
  let ?cs = "snd (lru_cache m f j (cache, s))"
  have fin: "finite (front k cache \<union> set (j # ks))" by (simp add: front_def)
  have "card (insert j (front k cache)) \<le> card (front k cache \<union> set (j # ks))"
    using fin by (intro card_mono) auto
  then have c1: "card (insert j (front k cache)) < m" using Cons.prems(4) by simp
  from Cons.prems(3) have jk: "j \<noteq> k" by auto
  from lru_cache_step[OF Cons.prems(1,2) jk c1, of f s]
  have d': "distinct (map fst (fst ?cs))" and k': "map_of (fst ?cs) k = Some h"
    and f': "front k (fst ?cs) \<subseteq> insert j (front k cache)" by simp_all
  have "card (front k (fst ?cs) \<union> set ks) \<le> card (front k cache \<union> set (j # ks))"
    using fin f' by (intro card_mono) auto
  then have c': "card (front k (fst ?cs) \<union> set ks) < m" using Cons.prems(4) by simp
  from Cons.prems(3) have "k \<notin> set ks" by simp
  from Cons.IH[OF d' k' this c', of "snd ?cs"] show ?case by simp
qed

lemma lru_cache_hit:
  "map_of cache k = Some h \<Longrightarrow> fst (lru_cache m f k (cache, s)) = Inr h \<and>
     snd (snd (lru_cache m f k (cache, s))) = s"
  by (simp add: lru_cache_def)

lemma lru_cache_distinct:
  assumes "distinct (map fst cache)"
  shows "distinct (map fst (fst (snd (lru_cache m f j (cache, s)))))"
proof (cases "map_of cache j")
  case (Some v)
  have "distinct (map fst (filter (\<lambda>p. fst p \<noteq> j) cache))"
    using assms by (simp add: distinct_map_filter)
  moreover have "j \<notin> fst ` set (filter (\<lambda>p. fst p \<noteq> j) cache)" by auto
  ultimately show ?thesis using Some by (simp add: lru_cache_def)
next
  case None
  then have jn: "j \<notin> fst ` set cache" by (simp add: map_of_eq_None_iff)
  have "distinct (map fst (take m ((j, v) # cache)))" for v
    using assms jn by (simp only: take_map[symmetric]) (simp add: distinct_take del: take_map)
  then show ?thesis using None assms
    by (auto simp: lru_cache_def split: prod.splits sum.splits)
qed

lemma resolve_all_distinct:
  "distinct (map fst (fst cs)) \<Longrightarrow> distinct (map fst (fst (resolve_all (lru_cache m f) ks cs)))"
proof (induction ks arbitrary: cs)
  case Nil
  then show ?case by simp
next
  case (Cons j ks)
  obtain cache s where cs: "cs = (cache, s)" by (cases cs)
  from Cons.prems have "distinct (map fst (fst (snd (lru_cache m f j cs))))"
    unfolding cs by (simp add: lru_cache_distinct)
  from Cons.IH[OF this] show ?case by simp
qed

lemma lru_cache_first:
  assumes "lru_cache m f k (cache, s) = (Inr h, cs1)" "0 < m"
  shows "map_of (fst cs1) k = Some h \<and> front k (fst cs1) = {}"
proof (cases "map_of cache k")
  case (Some v)
  then show ?thesis using assms by (auto simp: lru_cache_def front_def)
next
  case None
  obtain m' where "m = Suc m'" using assms(2) by (cases m) auto
  then show ?thesis using assms None
    by (auto simp: lru_cache_def front_def split: prod.splits sum.splits)
qed

lemma lru_cache_memoized:
  assumes "distinct (map fst (fst cs))" and "lru_cache m f k cs = (Inr h, cs1)"
    and "k \<notin> set ks" and "card (set ks) < m"
  shows "fst (lru_cache m f k (resolve_all (lru_cache m f) ks cs1)) = Inr h \<and>
         snd (snd (lru_cache m f k (resolve_all (lru_cache m f) ks cs1)))
           = snd (resolve_all (lru_cache m f) ks cs1)"
proof -
  obtain cache s where cs: "cs = (cache, s)" by (cases cs)
  obtain cache1 s1 where cs1: "cs1 = (cache1, s1)" by (cases cs1)
  from assms(4) have m: "0 < m" by simp
  from lru_cache_first[OF assms(2)[unfolded cs] m]
  have k1: "map_of cache1 k = Some h" and f1: "front k cache1 = {}" by (simp_all add: cs1)
  have "fst (snd (lru_cache m f k (cache, s))) = cache1" using assms(2) cs cs1 by simp
  moreover have "distinct (map fst (fst (snd (lru_cache m f k (cache, s)))))"
    using assms(1) cs by (intro lru_cache_distinct) simp
  ultimately have d1: "distinct (map fst cache1)" by simp
  have "card (front k cache1 \<union> set ks) < m" using f1 assms(4) by simp
  from lru_cache_retains[OF d1 k1 assms(3) this, of f s1]
  have "map_of (fst (resolve_all (lru_cache m f) ks cs1)) k = Some h" by (simp add: cs1)
  from lru_cache_hit[OF this, of m f "snd (resolve_all (lru_cache m f) ks cs1)"]
  show ?thesis by simp
qed

text \<open>
  C5. The claim as stated fails: both loaders are memoized by a bounded
  \<^verbatim>\<open>lru_cache\<close>. In the SwinIR server (five entries) the default key resolved again
  after five other keys is loaded again and yields a new handle; in the Real-ESRGAN
  server (one entry) resolving the standard model, the anime model and the standard model
  again runs the load routine of the standard model twice.
\<close>

theorem load_again_after_eviction:
  "fst (model_fn test_loader key_default ([], load_world0)) = Inr 0 \<and>
   fst (model_fn test_loader key_default
          (resolve_all (model_fn test_loader)
             [key_default,
              (''/opt/ml/model'', Some ''classical_sr''),
              (''/opt/ml/model'', Some ''lightweight_sr''),
              (''/opt/ml/model'', Some ''color_dn''),
              (''/opt/ml/model'', Some ''jpeg_car''),
              (''/opt/ml/model'', Some ''real_sr'')]
             ([], load_world0))) = Inr 6 \<and>
   loads (snd (resolve_all (load_model test_loader) [key_standard, key_anime, key_standard]
                 ([], load_world0)))
     = [RealESRGANer_RRDBNet ''/opt/ml/model/RealESRGAN_x4plus.pth'',
        RealESRGANer_SRVGGNetCompact ''/opt/ml/model/realesr-animevideov3.pth'',
        RealESRGANer_RRDBNet ''/opt/ml/model/RealESRGAN_x4plus.pth'']"
  by (simp add: model_fn_def model_fn_body_def MODEL_VARIANTS_def DEFAULT_MODEL_VARIANT_def
      key_default_def load_model_def lru_cache_def load_model_body_def run_load_def
      test_loader_def key_standard_def key_anime_def load_world0_def path_join_def
      startswith_def MODEL_CACHE_DIR_def Let_def)

text \<open>
  C5, amended. After any history of the process, when a resolve of a key has returned a
  handle, a later resolve of the same key returns that handle without running the load
  routine and without changing the loader's state, provided the entry has not been evicted
  in between: for the SwinIR \<^verbatim>\<open>model_fn\<close> (five entries) when fewer than five distinct
  other keys were resolved in between, for \<^verbatim>\<open>load_model\<close> at least when no other key
  was resolved in between.
\<close>

theorem memoized_while_cached:
  "(load_model L k (resolve_all (load_model L) hist ([], init)) = (Inr h, cs1) \<longrightarrow>
      fst (load_model L k cs1) = Inr h \<and> snd (snd (load_model L k cs1)) = snd cs1) \<and>
   (model_fn L vk (resolve_all (model_fn L) vhist ([], init)) = (Inr h', vs1) \<and>
    vk \<notin> set ks \<and> card (set ks) < 5 \<longrightarrow>
      fst (model_fn L vk (resolve_all (model_fn L) ks vs1)) = Inr h' \<and>
      snd (snd (model_fn L vk (resolve_all (model_fn L) ks vs1)))
        = snd (resolve_all (model_fn L) ks vs1))"
proof (intro conjI impI)
  assume a: "load_model L k (resolve_all (load_model L) hist ([], init)) = (Inr h, cs1)"
  have d: "distinct (map fst (fst (resolve_all (lru_cache 1 (load_model_body L)) hist ([], init))))"
    by (rule resolve_all_distinct) simp
  from lru_cache_memoized[OF d a[unfolded load_model_def], of "[]"]
  show "fst (load_model L k cs1) = Inr h" and "snd (snd (load_model L k cs1)) = snd cs1"
    by (simp_all add: load_model_def)
next
  assume a: "model_fn L vk (resolve_all (model_fn L) vhist ([], init)) = (Inr h', vs1) \<and>
    vk \<notin> set ks \<and> card (set ks) < 5"
  have d: "distinct (map fst (fst (resolve_all (lru_cache 5 (model_fn_body L)) vhist ([], init))))"
    by (rule resolve_all_distinct) simp
  from a have a1: "lru_cache 5 (model_fn_body L) vk
                     (resolve_all (lru_cache 5 (model_fn_body L)) vhist ([], init)) = (Inr h', vs1)"
    and a2: "vk \<notin> set ks" and a3: "card (set ks) < 5"
    by (simp_all add: model_fn_def)
  from lru_cache_memoized[OF d a1 a2 a3]
  show "fst (model_fn L vk (resolve_all (model_fn L) ks vs1)) = Inr h'"
    and "snd (snd (model_fn L vk (resolve_all (model_fn L) ks vs1)))
        = snd (resolve_all (model_fn L) ks vs1)"
    by (simp_all add: model_fn_def)
qed

theorem memoized_while_cached_witness:
  "fst (load_model test_loader key_standard ([], load_world0)) = Inr 0 \<and>
   fst (load_model test_loader key_standard
          (snd (load_model test_loader key_standard ([], load_world0)))) = Inr 0 \<and>
   snd (snd (load_model test_loader key_standard
          (snd (load_model test_loader key_standard ([], load_world0)))))
     = snd (snd (load_model test_loader key_standard ([], load_world0))) \<and>
   fst (model_fn test_loader key_default ([], load_world0)) = Inr 0 \<and>
   key_default \<notin> set [key_bogus] \<and> card (set [key_bogus]) < 5 \<and>
   fst (model_fn test_loader key_default
          (resolve_all (model_fn test_loader) [key_bogus]
             (snd (model_fn test_loader key_default ([], load_world0))))) = Inr 0"
proof -
  let ?cs1 = "snd (load_model test_loader key_standard ([], load_world0))"
  let ?vs1 = "snd (model_fn test_loader key_default ([], load_world0))"
  have f1: "fst (load_model test_loader key_standard ([], load_world0)) = Inr 0"
    by (simp add: load_model_def lru_cache_def load_model_body_def run_load_def test_loader_def
        key_standard_def load_world0_def path_join_def startswith_def MODEL_CACHE_DIR_def Let_def)
  have f2: "fst (model_fn test_loader key_default ([], load_world0)) = Inr 0"
    by (simp add: model_fn_def lru_cache_def model_fn_body_def run_load_def test_loader_def
        key_default_def load_world0_def path_join_def startswith_def MODEL_VARIANTS_def
        DEFAULT_MODEL_VARIANT_def Let_def)
  have e1: "load_model test_loader key_standard
              (resolve_all (load_model test_loader) [] ([], load_world0)) = (Inr 0, ?cs1)"
    using f1 by (simp add: prod_eq_iff)
  have e2: "model_fn test_loader key_default
              (resolve_all (model_fn test_loader) [] ([], load_world0)) = (Inr 0, ?vs1)"
    using f2 by (simp add: prod_eq_iff)
  have k: "key_default \<notin> set [key_bogus]" by (simp add: key_default_def key_bogus_def)
  have c: "card (set [key_bogus]) < 5" by simp
  note inst = memoized_while_cached[of test_loader key_standard "[]" load_world0 0 ?cs1
      key_default "[]" 0 ?vs1 "[key_bogus]"]
  from inst[THEN conjunct1, THEN mp, OF e1]
  have a: "fst (load_model test_loader key_standard ?cs1) = Inr 0"
    and b: "snd (snd (load_model test_loader key_standard ?cs1)) = snd ?cs1"
    by simp_all
  from inst[THEN conjunct2, THEN mp, OF conjI, OF e2 conjI, OF k c]
  have d: "fst (model_fn test_loader key_default
             (resolve_all (model_fn test_loader) [key_bogus] ?vs1)) = Inr 0"
    by simp
  from f1 a b f2 k c d show ?thesis by (intro conjI)
qed

lemma lru_cache_keys:
  assumes "\<forall>k \<in> fst ` set cache. P k" and "\<And>s v s'. f j s = (Inr v, s') \<Longrightarrow> P j"
  shows "\<forall>k \<in> fst ` set (fst (snd (lru_cache m f j (cache, s)))). P k"
proof (cases "map_of cache j")
  case (Some v)
  then have "(j, v) \<in> set cache" by (rule map_of_SomeD)
  then have "P j" using assms(1) by force
  then show ?thesis using Some assms(1) by (auto simp: lru_cache_def)
next
  case None
  show ?thesis
  proof (cases "f j s")
    case (Pair r s')
    show ?thesis
    proof (cases r)
      case (Inl e)
      then show ?thesis using None Pair assms(1) by (simp add: lru_cache_def)
    next
      case (Inr v)
      from assms(2) Pair Inr have "P j" by blast
      then have "\<forall>k \<in> fst ` set ((j, v) # cache). P k" using assms(1) by simp
      then have "\<forall>k \<in> fst ` set (take m ((j, v) # cache)). P k"
        using set_take_subset[of m "(j, v) # cache"] by blast
      then show ?thesis using None Pair Inr by (simp add: lru_cache_def)
    qed
  qed
qed

lemma resolve_all_keys:
  assumes "\<forall>k \<in> fst ` set (fst cs). P k" and "\<And>j s v s'. f j s = (Inr v, s') \<Longrightarrow> P j"
  shows "\<forall>k \<in> fst ` set (fst (resolve_all (lru_cache m f) ks cs)). P k"
  using assms(1)
proof (induction ks arbitrary: cs)
  case Nil
  then show ?case by simp
next
  case (Cons j ks)
  obtain cache s where cs: "cs = (cache, s)" by (cases cs)
  have "\<forall>k \<in> fst ` set (fst (snd (lru_cache m f j cs))). P k"
    unfolding cs using Cons.prems[unfolded cs] assms(2) by (intro lru_cache_keys) auto
  from Cons.IH[OF this] show ?case by simp
qed

lemma load_model_body_Inr:
  "load_model_body L k s = (Inr v, s') \<Longrightarrow>
     snd (snd k) = ''realesrgan'' \<or> snd (snd k) = ''anime''"
  by (auto simp: load_model_body_def Let_def split: prod.splits if_splits)

lemma model_fn_body_unknown:
  assumes "map_of MODEL_VARIANTS v = None"
  shows "model_fn_body L (dir, Some v) s =
           run_load L (Define_model (path_join dir ''Swin2SR_RealworldSR_X4_64_BSRGAN_PSNR.pth'')
                         ''real_sr'' 4) s"
proof -
  have dflt: "map_of MODEL_VARIANTS ''real_sr''
                = Some (''Swin2SR_RealworldSR_X4_64_BSRGAN_PSNR.pth'', 4)"
    by (simp add: MODEL_VARIANTS_def)
  show ?thesis using assms
    by (simp add: model_fn_body_def DEFAULT_MODEL_VARIANT_def Let_def dflt)
qed

text \<open>
  C6. The claim as stated fails for the SwinIR server: an unrecognized variant is not an
  error; \<^verbatim>\<open>model_fn\<close> falls back to the default variant and loads it.
\<close>

theorem model_fn_unknown_variant_loads_default:
  "fst (model_fn test_loader key_bogus ([], load_world0)) = Inr 0 \<and>
   loads (snd (snd (model_fn test_loader key_bogus ([], load_world0))))
     = [Define_model ''/opt/ml/model/Swin2SR_RealworldSR_X4_64_BSRGAN_PSNR.pth'' ''real_sr'' 4]"
  by (simp add: model_fn_def lru_cache_def model_fn_body_def run_load_def test_loader_def
      key_bogus_def load_world0_def path_join_def startswith_def MODEL_VARIANTS_def
      DEFAULT_MODEL_VARIANT_def Let_def)


text \<open>
  C6, amended. After any history of the process, \<^verbatim>\<open>load_model\<close> with a model type other
  than \<^verbatim>\<open>realesrgan\<close> and \<^verbatim>\<open>anime\<close> raises \<^verbatim>\<open>ValueError\<close> and leaves the cache and
  the loader's state as they were, so no load is attempted and the second resolve does the
  same. The SwinIR \<^verbatim>\<open>model_fn\<close> with an unrecognized variant that is not cached runs
  \<^verbatim>\<open>define_model\<close> for the default variant \<^verbatim>\<open>real_sr\<close> and returns what it returns.
\<close>

theorem unknown_model_kind:
  "(t \<noteq> ''realesrgan'' \<and> t \<noteq> ''anime'' \<longrightarrow>
      load_model L (n, p, t) (resolve_all (load_model L) hist ([], init))
        = (Inl (ValueError (''Unknown model type: '' @ t)), resolve_all (load_model L) hist ([], init)) \<and>
      load_model L (n, p, t)
          (snd (load_model L (n, p, t) (resolve_all (load_model L) hist ([], init))))
        = (Inl (ValueError (''Unknown model type: '' @ t)), resolve_all (load_model L) hist ([], init))) \<and>
   (map_of MODEL_VARIANTS v = None \<and> map_of cache (dir, Some v) = None \<longrightarrow>
      fst (model_fn L (dir, Some v) (cache, s))
        = construct L s (Define_model (path_join dir ''Swin2SR_RealworldSR_X4_64_BSRGAN_PSNR.pth'')
                           ''real_sr'' 4) \<and>
      loads (snd (snd (model_fn L (dir, Some v) (cache, s))))
        = loads s @ [Define_model (path_join dir ''Swin2SR_RealworldSR_X4_64_BSRGAN_PSNR.pth'')
                       ''real_sr'' 4])"
proof (intro conjI impI)
  assume t: "t \<noteq> ''realesrgan'' \<and> t \<noteq> ''anime''"
  let ?cs = "resolve_all (load_model L) hist ([], init)"
  let ?P = "\<lambda>k. snd (snd k) = ''realesrgan'' \<or> snd (snd k) = ''anime''"
  have "\<forall>k \<in> fst ` set (fst (resolve_all (lru_cache 1 (load_model_body L)) hist ([], init))). ?P k"
    by (rule resolve_all_keys) (auto dest: load_model_body_Inr)
  then have "(n, p, t) \<notin> fst ` set (fst ?cs)"
    using t by (auto simp: load_model_def)
  then have miss: "map_of (fst ?cs) (n, p, t) = None"
    by (simp add: map_of_eq_None_iff)
  have body: "\<And>s. load_model_body L (n, p, t) s
                = (Inl (ValueError (''Unknown model type: '' @ t)), s)"
    using t by (simp add: load_model_body_def Let_def)
  show first: "load_model L (n, p, t) ?cs
        = (Inl (ValueError (''Unknown model type: '' @ t)), ?cs)"
    using miss body by (cases ?cs) (simp add: load_model_def lru_cache_def)
  then show "load_model L (n, p, t) (snd (load_model L (n, p, t) ?cs))
        = (Inl (ValueError (''Unknown model type: '' @ t)), ?cs)"
    by simp
next
  assume a: "map_of MODEL_VARIANTS v = None \<and> map_of cache (dir, Some v) = None"
  then have b: "model_fn_body L (dir, Some v) s =
           run_load L (Define_model (path_join dir ''Swin2SR_RealworldSR_X4_64_BSRGAN_PSNR.pth'')
                         ''real_sr'' 4) s"
    by (intro model_fn_body_unknown) simp
  from a b show "fst (model_fn L (dir, Some v) (cache, s))
        = construct L s (Define_model (path_join dir ''Swin2SR_RealworldSR_X4_64_BSRGAN_PSNR.pth'')
                           ''real_sr'' 4)"
    by (simp add: model_fn_def lru_cache_def run_load_def split: sum.splits)
  from a b show "loads (snd (snd (model_fn L (dir, Some v) (cache, s))))
        = loads s @ [Define_model (path_join dir ''Swin2SR_RealworldSR_X4_64_BSRGAN_PSNR.pth'')
                       ''real_sr'' 4]"
    by (simp add: model_fn_def lru_cache_def run_load_def split: sum.splits)
qed

theorem unknown_model_kind_witness:
  "''bogus'' \<noteq> ''realesrgan'' \<and> ''bogus'' \<noteq> ''anime'' \<and>
   load_model test_loader (''x'', ''/opt/ml/model/x.pth'', ''bogus'')
       (resolve_all (load_model test_loader) [key_standard] ([], load_world0))
     = (Inl (ValueError ''Unknown model type: bogus''),
        resolve_all (load_model test_loader) [key_standard] ([], load_world0)) \<and>
   map_of MODEL_VARIANTS ''bogus'' = None \<and>
   fst (model_fn test_loader (''/opt/ml/model'', Some ''bogus'') ([], load_world0)) = Inr 0"
proof -
  have t: "''bogus'' \<noteq> ''realesrgan'' \<and> ''bogus'' \<noteq> ''anime''" by simp
  have v: "map_of MODEL_VARIANTS ''bogus'' = None" by (simp add: MODEL_VARIANTS_def)
  have m: "map_of ([] :: (variant_key \<times> handle) list) (''/opt/ml/model'', Some ''bogus'') = None"
    by simp
  note inst = unknown_model_kind[of "''bogus''" test_loader "''x''" "''/opt/ml/model/x.pth''"
      "[key_standard]" load_world0 "''bogus''" "[]" "''/opt/ml/model''" load_world0]
  from inst[THEN conjunct1, THEN mp, OF t]
  have a: "load_model test_loader (''x'', ''/opt/ml/model/x.pth'', ''bogus'')
       (resolve_all (load_model test_loader) [key_standard] ([], load_world0))
     = (Inl (ValueError ''Unknown model type: bogus''),
        resolve_all (load_model test_loader) [key_standard] ([], load_world0))"
    by simp
  from inst[THEN conjunct2, THEN mp, OF conjI, OF v m]
  have "fst (model_fn test_loader (''/opt/ml/model'', Some ''bogus'') ([], load_world0))
        = construct test_loader load_world0
            (Define_model (path_join ''/opt/ml/model'' ''Swin2SR_RealworldSR_X4_64_BSRGAN_PSNR.pth'')
               ''real_sr'' 4)"
    by simp
  then have b: "fst (model_fn test_loader (''/opt/ml/model'', Some ''bogus'') ([], load_world0)) = Inr 0"
    by (simp add: test_loader_def load_world0_def)
  from t a v b show ?thesis by (intro conjI) simp_all
qed

end
